theory Spec2Isabelle
  imports Main "HOL-Library.Log_Nat" "HOL-Library.Multiset"
begin

section \<open>Mexico mileage backend: a shallow embedding of \<^verbatim>\<open>src/main.py\<close>\<close>

text \<open>
  The development follows the source file top-down: field normalisation (\<^verbatim>\<open>norm\<close>),
  the two address builders, the four-rule classifier, the distance client and the
  batch pipeline of \<^verbatim>\<open>calculate_mileage\<close>.

  Python strings are modelled as \<^typ>\<open>string\<close>; a \<^typ>\<open>char\<close> stands for a code point
  below 256. Python's \<^verbatim>\<open>None\<close> is the \<open>None\<close> of an option type.
\<close>

subsection \<open>Python strings\<close>

text \<open>
  \<^verbatim>\<open>str.strip()\<close> without argument removes leading and trailing whitespace. Among
  the code points below 256 Python counts as whitespace: TAB, LF, VT, FF, CR, the four
  separators 0x1C..0x1F, the space, NEL (0x85) and the no-break space (0xA0).
\<close>

definition is_space :: "char \<Rightarrow> bool" where
  "is_space c = (c \<in> set [CHR 0x09, CHR 0x0A, CHR 0x0B, CHR 0x0C, CHR 0x0D,
                            CHR 0x1C, CHR 0x1D, CHR 0x1E, CHR 0x1F, CHR 0x20,
                            CHR 0x85, CHR 0xA0])"

definition strip :: "string \<Rightarrow> string" where
  "strip s = rev (dropWhile is_space (rev (dropWhile is_space s)))"

text \<open>\<^verbatim>\<open>s.replace(old, new)\<close> for a one-character \<open>old\<close>: every occurrence is replaced.\<close>

definition replace_chr :: "char \<Rightarrow> string \<Rightarrow> string \<Rightarrow> string" where
  "replace_chr old new s = concat (map (\<lambda>c. if c = old then new else [c]) s)"

text \<open>\<^verbatim>\<open>sep.join(parts)\<close>.\<close>

fun join :: "string \<Rightarrow> string list \<Rightarrow> string" where
  "join sep [] = []"
| "join sep [p] = p"
| "join sep (p # q # ps) = p @ sep @ join sep (q # ps)"

text \<open>Decimal rendering of integers, as \<^verbatim>\<open>str\<close> gives it.\<close>

definition digit_chr :: "nat \<Rightarrow> char" where
  "digit_chr d = char_of (48 + d)"

fun str_nat :: "nat \<Rightarrow> string" where
  "str_nat n = (if n < 10 then [digit_chr n] else str_nat (n div 10) @ [digit_chr (n mod 10)])"

declare str_nat.simps [simp del]

definition str_int :: "int \<Rightarrow> string" where
  "str_int i = (if i < 0 then CHR ''-'' # str_nat (nat (- i)) else str_nat (nat i))"

subsection \<open>Cell values and \<^verbatim>\<open>norm\<close>\<close>

text \<open>
  A cell of the uploaded sheet, as \<^verbatim>\<open>row.get\<close> hands it to \<^verbatim>\<open>norm\<close>. The code
  observes three things of a cell: whether it is \<^verbatim>\<open>None\<close>, whether it is a float
  NaN, and otherwise its \<^verbatim>\<open>str\<close> rendering. A float other than NaN is identified by
  its \<^verbatim>\<open>repr\<close> (which determines the float); any other object (a timestamp, say)
  by its \<^verbatim>\<open>str\<close>.
\<close>

datatype cell =
    CNone
  | CNaN
  | CFloat string
  | CInt int
  | CBool bool
  | CStr string
  | CObj string

fun py_str :: "cell \<Rightarrow> string" where
  "py_str CNone = ''None''"
| "py_str CNaN = ''nan''"
| "py_str (CFloat r) = r"
| "py_str (CInt i) = str_int i"
| "py_str (CBool b) = (if b then ''True'' else ''False'')"
| "py_str (CStr s) = s"
| "py_str (CObj s) = s"

text \<open>The function \<^verbatim>\<open>norm\<close> of the source.\<close>

fun norm_cell :: "cell \<Rightarrow> string option" where
  "norm_cell CNone = None"
| "norm_cell CNaN = None"
| "norm_cell v = Some (strip (py_str v))"

text \<open>Truthiness of a value that is \<^verbatim>\<open>None\<close> or a string: the test \<^verbatim>\<open>if x\<close>.\<close>

fun truthy :: "string option \<Rightarrow> bool" where
  "truthy None = False"
| "truthy (Some s) = (s \<noteq> [])"

subsection \<open>Address builders\<close>

text \<open>
  Both builders are modelled at the argument types the classifier passes: values in the
  range of \<^const>\<open>norm_cell\<close>. On \<^verbatim>\<open>None\<close> for city or state the test
  \<^verbatim>\<open>not city or not state\<close> returns before \<^verbatim>\<open>.strip()\<close> is reached.
\<close>

definition build_address :: "string option \<Rightarrow> string option \<Rightarrow> string \<Rightarrow> string option" where
  "build_address city_state_str zip_code country =
     (case city_state_str of
        None \<Rightarrow> None
      | Some cs \<Rightarrow>
          if cs = [] then None
          else
            let cs' = replace_chr CHR '','' '', '' cs;
                parts = [cs'];
                parts = (if truthy zip_code then parts @ [the zip_code] else parts);
                parts = parts @ [country]
            in Some (join '', '' parts))"

definition build_us_address :: "string option \<Rightarrow> string option \<Rightarrow> string option \<Rightarrow> string option" where
  "build_us_address city state zip_code =
     (if \<not> truthy city \<or> \<not> truthy state then None
      else
        let parts = [strip (the city), strip (the state)];
            parts = (if truthy zip_code then parts @ [the zip_code] else parts);
            parts = parts @ [''USA'']
        in Some (join '', '' parts))"

subsection \<open>The classifier\<close>

text \<open>
  A row is a mapping from column names to cells; \<^verbatim>\<open>row.get(k)\<close> is \<^verbatim>\<open>None\<close> for
  a missing key.
\<close>

type_synonym row = "string \<rightharpoonup> cell"

definition row_get :: "row \<Rightarrow> string \<Rightarrow> cell" where
  "row_get r k = (case r k of None \<Rightarrow> CNone | Some v \<Rightarrow> v)"

text \<open>A row given by the cells of the eight columns the classifier reads.\<close>

definition mk_row :: "cell \<Rightarrow> cell \<Rightarrow> cell \<Rightarrow> cell \<Rightarrow> cell \<Rightarrow> cell \<Rightarrow> cell \<Rightarrow> cell \<Rightarrow> row" where
  "mk_row mx_origin mx_dest orig_city orig_state orig_zip dest_city dest_state dest_zip =
     map_of
       [(''Mexico Origin City and State'', mx_origin),
        (''Mexico Dest City and State'', mx_dest),
        (''Origin City'', orig_city),
        (''Origin State'', orig_state),
        (''Origin Zip'', orig_zip),
        (''Destination City'', dest_city),
        (''Destination State'', dest_state),
        (''Destination Zip'', dest_zip)]"

text \<open>
  The branch of the classifier that returns, named after the comments of the source
  (\<^verbatim>\<open># Rule 1\<close> .. \<^verbatim>\<open># Rule 4\<close>). It is recorded beside the returned pair.
\<close>

datatype rule = Rule1 | Rule2 | Rule3 | Rule4

definition classify_branch :: "row \<Rightarrow> rule \<times> (string option \<times> string option)" where
  "classify_branch r =
     (let mx_origin_cs = norm_cell (row_get r ''Mexico Origin City and State'');
          mx_dest_cs = norm_cell (row_get r ''Mexico Dest City and State'');
          orig_city = norm_cell (row_get r ''Origin City'');
          orig_state = norm_cell (row_get r ''Origin State'');
          orig_zip = norm_cell (row_get r ''Origin Zip'');
          dest_city = norm_cell (row_get r ''Destination City'');
          dest_state = norm_cell (row_get r ''Destination State'');
          dest_zip = norm_cell (row_get r ''Destination Zip'')
      in
        if truthy mx_origin_cs \<and> \<not> truthy mx_dest_cs then
          (let mx_origin_addr = build_address mx_origin_cs None ''Mexico'';
               border_addr = build_us_address dest_city dest_state dest_zip
           in if \<not> truthy border_addr then (Rule1, (None, None))
              else (Rule1, (mx_origin_addr, border_addr)))
        else if \<not> truthy mx_origin_cs \<and> truthy mx_dest_cs then
          (let border_addr = build_us_address orig_city orig_state orig_zip;
               mx_dest_addr = build_address mx_dest_cs None ''Mexico''
           in if \<not> truthy border_addr \<or> \<not> truthy mx_dest_addr then (Rule2, (None, None))
              else (Rule2, (border_addr, mx_dest_addr)))
        else if truthy mx_origin_cs \<and> truthy mx_dest_cs then
          (let mx_origin_addr = build_address mx_origin_cs None ''Mexico'';
               mx_dest_addr = build_address mx_dest_cs None ''Mexico''
           in (Rule3, (mx_origin_addr, mx_dest_addr)))
        else (Rule4, (None, None)))"

definition classify_and_build_addresses :: "row \<Rightarrow> string option \<times> string option" where
  "classify_and_build_addresses r = snd (classify_branch r)"

definition rule_applied :: "row \<Rightarrow> rule" where
  "rule_applied r = fst (classify_branch r)"

text \<open>
  The two presence signals the rules are stated over: a Mexico city/state field is
  present when its normalised value is a non-empty string.
\<close>

definition has_mexico_origin :: "row \<Rightarrow> bool" where
  "has_mexico_origin r = truthy (norm_cell (row_get r ''Mexico Origin City and State''))"

definition has_mexico_dest :: "row \<Rightarrow> bool" where
  "has_mexico_dest r = truthy (norm_cell (row_get r ''Mexico Dest City and State''))"

subsection \<open>Exceptions\<close>

text \<open>
  The exceptions that can leave the distance client or the pipeline. \<open>TransportError\<close>
  stands for whatever \<^verbatim>\<open>httpx\<close> raises when the request cannot be completed
  (connection refused, DNS failure, the 20 second timeout).
\<close>

datatype error =
    TransportError
  | JSONDecodeError
  | AttributeError
  | TypeError
  | KeyError
  | IndexError
  | OverflowError

subsection \<open>Floats\<close>

text \<open>
  A Python float is an IEEE-754 binary64 number. A finite one is represented by its exact
  rational value (the two zeros are identified). Every operation rounds the exact result
  to the nearest representable number, ties to the even significand.
\<close>

datatype pyfloat = Finite rat | PosInf | NegInf | NaN

definition round_half_even :: "rat \<Rightarrow> int" where
  "round_half_even x =
     (let f = \<lfloor>x\<rfloor>; d = x - of_int f
      in if d < 1 / 2 then f
         else if 1 / 2 < d then f + 1
         else if even f then f else f + 1)"

text \<open>Powers of two with an integer exponent.\<close>

definition pow2 :: "int \<Rightarrow> rat" where
  "pow2 e = (if 0 \<le> e then 2 ^ nat e else 1 / 2 ^ nat (- e))"

text \<open>The binary exponent of a non-zero rational: \<open>pow2 (expo x) \<le> \<bar>x\<bar> < pow2 (expo x + 1)\<close>.\<close>

definition expo :: "rat \<Rightarrow> int" where
  "expo x =
     (if 1 \<le> \<bar>x\<bar> then bitlen \<lfloor>\<bar>x\<bar>\<rfloor> - 1
      else - bitlen (\<lceil>1 / \<bar>x\<bar>\<rceil> - 1))"

text \<open>
  Rounding to binary64: 53 significant bits, least exponent \<open>-1022\<close> (below it the
  spacing stays \<open>pow2 (-1074)\<close>), overflow to an infinity from \<open>pow2 1024\<close> on.
\<close>

definition round_to_double :: "rat \<Rightarrow> pyfloat" where
  "round_to_double x =
     (if x = 0 then Finite 0
      else
        let e = max (expo x) (- 1022);
            ulp = pow2 (e - 52);
            r = of_int (round_half_even (x / ulp)) * ulp
        in if pow2 1024 \<le> \<bar>r\<bar> then (if 0 < x then PosInf else NegInf)
           else Finite r)"

text \<open>\<^verbatim>\<open>float(i)\<close> for a Python int, as the mixed product \<^verbatim>\<open>i * 0.5\<close> converts it.\<close>

definition float_of_int :: "int \<Rightarrow> error + pyfloat" where
  "float_of_int i =
     (case round_to_double (of_int i) of
        Finite r \<Rightarrow> Inr (Finite r)
      | _ \<Rightarrow> Inl OverflowError)"

fun float_mul :: "pyfloat \<Rightarrow> pyfloat \<Rightarrow> pyfloat" where
  "float_mul (Finite a) (Finite b) = round_to_double (a * b)"
| "float_mul NaN _ = NaN"
| "float_mul _ NaN = NaN"
| "float_mul (Finite a) PosInf = (if a = 0 then NaN else if 0 < a then PosInf else NegInf)"
| "float_mul (Finite a) NegInf = (if a = 0 then NaN else if 0 < a then NegInf else PosInf)"
| "float_mul PosInf (Finite b) = (if b = 0 then NaN else if 0 < b then PosInf else NegInf)"
| "float_mul NegInf (Finite b) = (if b = 0 then NaN else if 0 < b then NegInf else PosInf)"
| "float_mul PosInf PosInf = PosInf"
| "float_mul PosInf NegInf = NegInf"
| "float_mul NegInf PosInf = NegInf"
| "float_mul NegInf NegInf = PosInf"

text \<open>
  \<^verbatim>\<open>round(x, ndigits)\<close> on a float with \<open>ndigits \<ge> 0\<close>: infinities and NaN round to
  themselves; a finite value is rounded (half to even, on its exact value) to
  \<open>ndigits\<close> decimals, and the decimal is converted back to the nearest float.
\<close>

definition py_round :: "pyfloat \<Rightarrow> nat \<Rightarrow> error + pyfloat" where
  "py_round x ndigits =
     (case x of
        Finite a \<Rightarrow>
          (case round_to_double (of_int (round_half_even (a * 10 ^ ndigits)) / 10 ^ ndigits) of
             Finite r \<Rightarrow> Inr (Finite r)
           | _ \<Rightarrow> Inl OverflowError)
      | _ \<Rightarrow> Inr x)"

text \<open>The literal \<^verbatim>\<open>0.000621371\<close>: the float nearest to the decimal.\<close>

definition miles_per_meter :: pyfloat where
  "miles_per_meter = round_to_double (621371 / 1000000000)"

subsection \<open>JSON values\<close>

text \<open>
  What \<^verbatim>\<open>resp.json()\<close> returns. An object is the association list of its (distinct)
  keys.
\<close>

datatype json =
    JNull
  | JBool bool
  | JInt int
  | JFloat pyfloat
  | JStr string
  | JArr "json list"
  | JObj "(string \<times> json) list"

text \<open>\<^verbatim>\<open>not v\<close> is false exactly for the truthy values.\<close>

fun json_truthy :: "json \<Rightarrow> bool" where
  "json_truthy JNull = False"
| "json_truthy (JBool b) = b"
| "json_truthy (JInt i) = (i \<noteq> 0)"
| "json_truthy (JFloat f) = (f \<noteq> Finite 0)"
| "json_truthy (JStr s) = (s \<noteq> [])"
| "json_truthy (JArr xs) = (xs \<noteq> [])"
| "json_truthy (JObj kvs) = (kvs \<noteq> [])"

text \<open>\<^verbatim>\<open>v.get(key, default)\<close>: only a dict has the method.\<close>

fun dict_get :: "json \<Rightarrow> string \<Rightarrow> json \<Rightarrow> error + json" where
  "dict_get (JObj kvs) k dflt = (case map_of kvs k of None \<Rightarrow> Inr dflt | Some v \<Rightarrow> Inr v)"
| "dict_get _ k dflt = Inl AttributeError"

text \<open>\<^verbatim>\<open>v[0]\<close> on a truthy value.\<close>

fun subscript0 :: "json \<Rightarrow> error + json" where
  "subscript0 (JArr (x # xs)) = Inr x"
| "subscript0 (JArr []) = Inl IndexError"
| "subscript0 (JStr (c # cs)) = Inr (JStr [c])"
| "subscript0 (JStr []) = Inl IndexError"
| "subscript0 (JObj kvs) = Inl KeyError"
| "subscript0 _ = Inl TypeError"

text \<open>\<^verbatim>\<open>meters * 0.000621371\<close>, by the type of \<^verbatim>\<open>meters\<close>.\<close>

fun times_factor :: "json \<Rightarrow> error + pyfloat" where
  "times_factor (JInt m) =
     (case float_of_int m of Inl e \<Rightarrow> Inl e | Inr f \<Rightarrow> Inr (float_mul f miles_per_meter))"
| "times_factor (JBool b) = Inr (float_mul (Finite (if b then 1 else 0)) miles_per_meter)"
| "times_factor (JFloat f) = Inr (float_mul f miles_per_meter)"
| "times_factor _ = Inl TypeError"

subsection \<open>The distance client\<close>

text \<open>
  The reply to one \<^verbatim>\<open>client.post\<close>: the status code and the body as
  \<^verbatim>\<open>resp.json()\<close> parses it (\<open>None\<close> when it is not JSON). The routing provider is a
  function from the two addresses of the payload to either a reply or the exception
  that \<^verbatim>\<open>httpx\<close> raises.
\<close>

record response =
  status_code :: int
  body :: "json option"

type_synonym provider = "string \<Rightarrow> string \<Rightarrow> error + response"

definition google_route_distance_miles ::
  "string option \<Rightarrow> provider \<Rightarrow> string \<Rightarrow> string \<Rightarrow> error + pyfloat option" where
  "google_route_distance_miles api_key post origin_address destination_address =
     (if \<not> truthy api_key then Inr None
      else
        (case post origin_address destination_address of
           Inl e \<Rightarrow> Inl e
         | Inr resp \<Rightarrow>
             (if status_code resp \<noteq> 200 then Inr None
              else
                (case body resp of
                   None \<Rightarrow> Inl JSONDecodeError
                 | Some data \<Rightarrow>
                     (case dict_get data ''routes'' (JArr []) of
                        Inl e \<Rightarrow> Inl e
                      | Inr routes \<Rightarrow>
                          (if \<not> json_truthy routes then Inr None
                           else
                             (case subscript0 routes of
                                Inl e \<Rightarrow> Inl e
                              | Inr route0 \<Rightarrow>
                                  (case dict_get route0 ''distanceMeters'' JNull of
                                     Inl e \<Rightarrow> Inl e
                                   | Inr meters \<Rightarrow>
                                       (if meters = JNull then Inr None
                                        else
                                          (case times_factor meters of
                                             Inl e \<Rightarrow> Inl e
                                           | Inr miles \<Rightarrow>
                                               (case py_round miles 1 of
                                                  Inl e \<Rightarrow> Inl e
                                                | Inr rounded \<Rightarrow> Inr (Some rounded))))))))))))"

subsection \<open>The pipeline of \<^verbatim>\<open>calculate_mileage\<close>\<close>

text \<open>The body of one task, after the semaphore has been acquired.\<close>

definition process_one ::
  "string option \<Rightarrow> provider \<Rightarrow> nat \<Rightarrow> row \<Rightarrow> error + (nat \<times> pyfloat option)" where
  "process_one api_key post idx r =
     (let (origin_addr, dest_addr) = classify_and_build_addresses r
      in if \<not> truthy origin_addr \<or> \<not> truthy dest_addr then Inr (idx, None)
         else
           (case google_route_distance_miles api_key post (the origin_addr) (the dest_addr) of
              Inl e \<Rightarrow> Inl e
            | Inr miles \<Rightarrow> Inr (idx, miles)))"

text \<open>
  \<^verbatim>\<open>asyncio.gather(*tasks)\<close>: when no task raises, the list of the results in the
  order of the tasks; otherwise the exception of the task that fails first.
  \<open>finished i\<close> is the instant at which task \<open>i\<close> completes.
\<close>

definition gather :: "(nat \<Rightarrow> nat) \<Rightarrow> (error + 'a) list \<Rightarrow> error + 'a list" where
  "gather finished outcomes =
     (let failed = filter (\<lambda>i. isl (outcomes ! i)) [0..<length outcomes]
      in if failed = [] then Inr (map projr outcomes)
         else Inl (projl (outcomes ! arg_min_list finished failed)))"

text \<open>
  The loop \<^verbatim>\<open>for idx, miles in results: mexico_miles[idx] = miles\<close>; a list
  assignment out of range raises.
\<close>

fun fill :: "(nat \<times> 'a option) list \<Rightarrow> 'a option list \<Rightarrow> error + 'a option list" where
  "fill [] slots = Inr slots"
| "fill ((idx, miles) # results) slots =
     (if idx < length slots then fill results (slots[idx := miles]) else Inl IndexError)"

text \<open>
  Lines 163 to 178: from the rows of the data frame (read from the sheet, so that
  \<^verbatim>\<open>df.iterrows()\<close> numbers them from 0) to the column \<^verbatim>\<open>Mexico Miles\<close>.
\<close>

definition calculate_mileage ::
  "string option \<Rightarrow> provider \<Rightarrow> (nat \<Rightarrow> nat) \<Rightarrow> row list \<Rightarrow> error + pyfloat option list" where
  "calculate_mileage api_key post finished rows =
     (let tasks = map (\<lambda>(idx, r). process_one api_key post idx r) (enumerate 0 rows)
      in (case gather finished tasks of
            Inl e \<Rightarrow> Inl e
          | Inr results \<Rightarrow> fill results (replicate (length rows) None)))"

subsection \<open>The semaphore\<close>

text \<open>
  The tasks run interleaved on one event loop and share \<^verbatim>\<open>sem = asyncio.Semaphore(20)\<close>.
  The whole body of a task is inside \<^verbatim>\<open>async with sem\<close>, so a task is in one of four
  phases: it waits for the semaphore; it holds a slot and has not yet sent a request; its
  request is in flight (it awaits \<^verbatim>\<open>client.post\<close>); it has left the block. A state of
  the pool is the value of the semaphore and the phase of every task.
\<close>

datatype phase = Waiting | Holding | InFlight | Done

record pool =
  sem_value :: nat
  phases :: "phase list"

definition semaphore_size :: nat where
  "semaphore_size = 20"

definition initial_pool :: "row list \<Rightarrow> pool" where
  "initial_pool rows = \<lparr>sem_value = semaphore_size, phases = replicate (length rows) Waiting\<rparr>"

text \<open>
  A task sends a request when the classifier gives it two addresses and the credentials
  are configured; otherwise it returns without one.
\<close>

definition sends_request :: "string option \<Rightarrow> row \<Rightarrow> bool" where
  "sends_request api_key r =
     (let (origin_addr, dest_addr) = classify_and_build_addresses r
      in truthy origin_addr \<and> truthy dest_addr \<and> truthy api_key)"

text \<open>
  One step of one task. \<open>acquire\<close>: \<^verbatim>\<open>sem.acquire()\<close> succeeds only while the value is
  positive, and decrements it. \<open>return_early\<close>: no address pair or no credentials, the
  block is left and the slot released. \<open>send\<close>: the request is issued. \<open>finish\<close>: the
  request ends with a reply, an exception or the timeout; in each case the block is left
  and \<^verbatim>\<open>async with\<close> releases the slot.
\<close>

inductive step :: "string option \<Rightarrow> row list \<Rightarrow> pool \<Rightarrow> pool \<Rightarrow> bool"
  for api_key :: "string option" and rows :: "row list" where
  acquire:
    "i < length (phases s) \<Longrightarrow> phases s ! i = Waiting \<Longrightarrow> 0 < sem_value s \<Longrightarrow>
     step api_key rows s (s\<lparr>sem_value := sem_value s - 1, phases := (phases s)[i := Holding]\<rparr>)"
| return_early:
    "i < length (phases s) \<Longrightarrow> phases s ! i = Holding \<Longrightarrow> \<not> sends_request api_key (rows ! i) \<Longrightarrow>
     step api_key rows s (s\<lparr>sem_value := sem_value s + 1, phases := (phases s)[i := Done]\<rparr>)"
| send:
    "i < length (phases s) \<Longrightarrow> phases s ! i = Holding \<Longrightarrow> sends_request api_key (rows ! i) \<Longrightarrow>
     step api_key rows s (s\<lparr>phases := (phases s)[i := InFlight]\<rparr>)"
| finish:
    "i < length (phases s) \<Longrightarrow> phases s ! i = InFlight \<Longrightarrow>
     step api_key rows s (s\<lparr>sem_value := sem_value s + 1, phases := (phases s)[i := Done]\<rparr>)"

code_pred step .

text \<open>The states of a run: from the initial pool, any number of steps.\<close>

inductive reachable :: "string option \<Rightarrow> row list \<Rightarrow> pool \<Rightarrow> bool"
  for api_key :: "string option" and rows :: "row list" where
  start: "reachable api_key rows (initial_pool rows)"
| next_step: "reachable api_key rows s \<Longrightarrow> step api_key rows s s' \<Longrightarrow> reachable api_key rows s'"

code_pred reachable .

text \<open>The number of tasks in a phase.\<close>

definition in_phase :: "phase \<Rightarrow> pool \<Rightarrow> nat" where
  "in_phase p s = count_list (phases s) p"

section \<open>Properties\<close>

subsection \<open>Strings\<close>

lemma replace_chr_append:
  "replace_chr c new (a @ b) = replace_chr c new a @ replace_chr c new b"
  by (simp add: replace_chr_def)

lemma replace_chr_Cons:
  "replace_chr c new (x # xs) = (if x = c then new else [x]) @ replace_chr c new xs"
  by (simp add: replace_chr_def)

lemma replace_chr_absent: "c \<notin> set a \<Longrightarrow> replace_chr c new a = a"
  by (induction a) (auto simp: replace_chr_def)

subsection \<open>The Mexico address builder\<close>

text \<open>
  Claim C5, as amended. The builder does not trim its argument: trimming is done by
  \<^verbatim>\<open>norm\<close>, before the call. For a city/state token that is non-empty as passed, the
  Mexico address is the token with every comma followed by a space, then the postal code
  when one is given (and non-empty), then the literal \<open>Mexico\<close>, joined by a comma and a
  space; for a token \<open>CITY,ST\<close> the first part is \<open>CITY, ST\<close>. The result is \<^verbatim>\<open>None\<close>
  exactly when the token as passed is \<^verbatim>\<open>None\<close> or the empty string; hence, for a cell
  that goes through \<^verbatim>\<open>norm\<close> first, exactly when the cell is \<^verbatim>\<open>None\<close>, NaN or empty
  after trimming.
\<close>

theorem build_address_mexico_form:
  "(cs \<noteq> [] \<longrightarrow>
      build_address (Some cs) None ''Mexico'' = Some (replace_chr CHR '','' '', '' cs @ '', Mexico'') \<and>
      build_address (Some cs) (Some []) ''Mexico'' = Some (replace_chr CHR '','' '', '' cs @ '', Mexico'') \<and>
      (z \<noteq> [] \<longrightarrow>
         build_address (Some cs) (Some z) ''Mexico''
           = Some (replace_chr CHR '','' '', '' cs @ '', '' @ z @ '', Mexico''))) \<and>
   (CHR '','' \<notin> set city \<and> CHR '','' \<notin> set st \<longrightarrow>
      replace_chr CHR '','' '', '' (city @ '','' @ st) = city @ '', '' @ st) \<and>
   build_address None zc ''Mexico'' = None \<and>
   build_address (Some []) zc ''Mexico'' = None \<and>
   (build_address tok zc ''Mexico'' = None) = (tok = None \<or> tok = Some []) \<and>
   (build_address (norm_cell v) zc ''Mexico'' = None)
     = (v = CNone \<or> v = CNaN \<or> strip (py_str v) = [])"
proof -
  have 1: "cs \<noteq> [] \<longrightarrow>
      build_address (Some cs) None ''Mexico'' = Some (replace_chr CHR '','' '', '' cs @ '', Mexico'') \<and>
      build_address (Some cs) (Some []) ''Mexico'' = Some (replace_chr CHR '','' '', '' cs @ '', Mexico'') \<and>
      (z \<noteq> [] \<longrightarrow>
         build_address (Some cs) (Some z) ''Mexico''
           = Some (replace_chr CHR '','' '', '' cs @ '', '' @ z @ '', Mexico''))"
    by (simp add: build_address_def)
  have 2: "CHR '','' \<notin> set city \<and> CHR '','' \<notin> set st \<longrightarrow>
      replace_chr CHR '','' '', '' (city @ '','' @ st) = city @ '', '' @ st"
    by (simp add: replace_chr_append replace_chr_Cons replace_chr_absent)
  have 3: "build_address None zc ''Mexico'' = None" "build_address (Some []) zc ''Mexico'' = None"
    by (simp_all add: build_address_def)
  have 4: "(build_address t zc ''Mexico'' = None) = (t = None \<or> t = Some [])" for t
    by (cases t) (simp_all add: build_address_def Let_def)
  have 5: "(build_address (norm_cell v) zc ''Mexico'' = None)
      = (v = CNone \<or> v = CNaN \<or> strip (py_str v) = [])"
    unfolding 4 by (cases v) simp_all
  from 1 2 3 4 [of tok] 5 show ?thesis by blast
qed

theorem build_address_mexico_form_witness:
  "build_address (Some ''JUAREZ,NL'') None ''Mexico'' = Some ''JUAREZ, NL, Mexico'' \<and>
   build_address (Some ''JUAREZ,NL'') (Some ''32000'') ''Mexico'' = Some ''JUAREZ, NL, 32000, Mexico'' \<and>
   norm_cell (CStr ''   '') = Some [] \<and>
   build_address (norm_cell (CStr ''   '')) None ''Mexico'' = None"
proof -
  have n: "norm_cell (CStr ''   '') = Some []" "strip (py_str (CStr ''   '')) = []"
    by (simp_all add: strip_def is_space_def)
  note T = build_address_mexico_form
      [where cs = "''JUAREZ,NL''" and z = "''32000''" and city = "''JUAREZ''" and st = "''NL''"
        and zc = None and tok = None and v = "CStr ''   ''"]
  have r: "replace_chr CHR '','' '', '' (''JUAREZ'' @ '','' @ ''NL'') = ''JUAREZ'' @ '', '' @ ''NL''"
    using T by simp
  have a: "build_address (norm_cell (CStr ''   '')) None ''Mexico'' = None"
    using T n(2) by blast
  show ?thesis
    using T n(1) r a by simp
qed

text \<open>
  Claim C5 as it was stated, refuted. A token of two spaces is empty after trimming, yet
  the builder, which does not trim, returns an address for it.
\<close>

theorem build_address_untrimmed_counterexample:
  "strip ''  '' = [] \<and>
   build_address (Some ''  '') None ''Mexico'' = Some ''  , Mexico'' \<and>
   build_address (Some ''  '') None ''Mexico'' \<noteq> None"
  by (simp add: strip_def is_space_def build_address_def replace_chr_def)

subsection \<open>Normalisation and the builders\<close>

lemma norm_cell_cases:
  "norm_cell v = (if v = CNone \<or> v = CNaN then None else Some (strip (py_str v)))"
  by (cases v) simp_all

lemma build_us_address_truthy:
  "truthy (build_us_address c s z) = (truthy c \<and> truthy s)"
  by (simp add: build_us_address_def Let_def)

lemma build_us_address_None:
  "build_us_address c s z = None \<longleftrightarrow> \<not> truthy c \<or> \<not> truthy s"
  by (simp add: build_us_address_def Let_def)

lemma build_address_truthy:
  "truthy (build_address cs None ''Mexico'') = truthy cs"
  by (cases cs) (simp_all add: build_address_def)

lemma build_address_None:
  "build_address cs None ''Mexico'' = None \<longleftrightarrow> \<not> truthy cs"
  by (cases cs) (simp_all add: build_address_def)

subsection \<open>The classifier, one equation per rule\<close>

lemma classify_rule1:
  "has_mexico_origin r \<Longrightarrow> \<not> has_mexico_dest r \<Longrightarrow>
   classify_branch r =
     (Rule1,
      if truthy (norm_cell (row_get r ''Destination City'')) \<and>
         truthy (norm_cell (row_get r ''Destination State''))
      then (build_address (norm_cell (row_get r ''Mexico Origin City and State'')) None ''Mexico'',
            build_us_address (norm_cell (row_get r ''Destination City''))
              (norm_cell (row_get r ''Destination State''))
              (norm_cell (row_get r ''Destination Zip'')))
      else (None, None))"
  by (simp add: classify_branch_def has_mexico_origin_def has_mexico_dest_def Let_def
      build_us_address_truthy)

lemma classify_rule2:
  "\<not> has_mexico_origin r \<Longrightarrow> has_mexico_dest r \<Longrightarrow>
   classify_branch r =
     (Rule2,
      if truthy (norm_cell (row_get r ''Origin City'')) \<and>
         truthy (norm_cell (row_get r ''Origin State''))
      then (build_us_address (norm_cell (row_get r ''Origin City''))
              (norm_cell (row_get r ''Origin State''))
              (norm_cell (row_get r ''Origin Zip'')),
            build_address (norm_cell (row_get r ''Mexico Dest City and State'')) None ''Mexico'')
      else (None, None))"
  by (simp add: classify_branch_def has_mexico_origin_def has_mexico_dest_def Let_def
      build_us_address_truthy build_address_truthy)

lemma classify_rule3:
  "has_mexico_origin r \<Longrightarrow> has_mexico_dest r \<Longrightarrow>
   classify_branch r =
     (Rule3,
      build_address (norm_cell (row_get r ''Mexico Origin City and State'')) None ''Mexico'',
      build_address (norm_cell (row_get r ''Mexico Dest City and State'')) None ''Mexico'')"
  by (simp add: classify_branch_def has_mexico_origin_def has_mexico_dest_def Let_def)

lemma classify_rule4:
  "\<not> has_mexico_origin r \<Longrightarrow> \<not> has_mexico_dest r \<Longrightarrow>
   classify_branch r = (Rule4, None, None)"
  by (simp add: classify_branch_def has_mexico_origin_def has_mexico_dest_def Let_def)

lemma rule_applied_eq:
  "rule_applied r =
     (if has_mexico_origin r then (if has_mexico_dest r then Rule3 else Rule1)
      else (if has_mexico_dest r then Rule2 else Rule4))"
  by (simp add: rule_applied_def classify_rule1 classify_rule2 classify_rule3 classify_rule4)


subsection \<open>strip\<close>

lemma dropWhile_id: "xs = [] \<or> \<not> P (hd xs) \<Longrightarrow> dropWhile P xs = xs"
  by (cases xs) auto

lemma strip_prefix: "\<exists>ws. dropWhile is_space s = strip s @ ws \<and> (\<forall>c \<in> set ws. is_space c)"
proof -
  let ?t = "dropWhile is_space s"
  have "strip s @ rev (takeWhile is_space (rev ?t))
          = rev (takeWhile is_space (rev ?t) @ dropWhile is_space (rev ?t))"
    by (simp only: strip_def rev_append)
  also have "\<dots> = rev (rev ?t)"
    by (simp only: takeWhile_dropWhile_id)
  finally have "?t = strip s @ rev (takeWhile is_space (rev ?t))"
    by simp
  moreover have "\<forall>c \<in> set (rev (takeWhile is_space (rev ?t))). is_space c"
    by (auto dest: set_takeWhileD)
  ultimately show ?thesis by blast
qed

lemma strip_no_leading: "strip s \<noteq> [] \<Longrightarrow> \<not> is_space (hd (strip s))"
proof -
  assume ne: "strip s \<noteq> []"
  obtain ws where t: "dropWhile is_space s = strip s @ ws"
    using strip_prefix by blast
  then have "dropWhile is_space s \<noteq> []" using ne by simp
  then have "\<not> is_space (hd (dropWhile is_space s))"
    by (rule hd_dropWhile)
  then show ?thesis using t ne by simp
qed

lemma strip_no_trailing: "strip s \<noteq> [] \<Longrightarrow> \<not> is_space (last (strip s))"
proof -
  assume ne: "strip s \<noteq> []"
  then have "dropWhile is_space (rev (dropWhile is_space s)) \<noteq> []"
    by (simp add: strip_def)
  then have "\<not> is_space (hd (dropWhile is_space (rev (dropWhile is_space s))))"
    by (rule hd_dropWhile)
  then show ?thesis using ne by (simp add: strip_def last_rev)
qed

lemma strip_idem: "strip (strip s) = strip s"
proof (cases "strip s = []")
  case True
  have "strip [] = []" by (simp add: strip_def)
  with True show ?thesis by simp
next
  case False
  have a: "dropWhile is_space (strip s) = strip s"
    using strip_no_leading [OF False] by (simp add: dropWhile_id)
  have "rev (strip s) \<noteq> []" using False by simp
  moreover have "hd (rev (strip s)) = last (strip s)"
    using False by (simp add: hd_rev)
  ultimately have b: "dropWhile is_space (rev (strip s)) = rev (strip s)"
    using strip_no_trailing [OF False] by (simp add: dropWhile_id)
  show ?thesis
    unfolding strip_def [of "strip s"] a b by simp
qed

lemma norm_cell_strip: "norm_cell v = Some s \<Longrightarrow> strip s = s"
  by (cases v) (auto simp: strip_idem)

subsection \<open>The four rules\<close>

lemmas row_eval =
  mk_row_def row_get_def has_mexico_origin_def has_mexico_dest_def strip_def is_space_def
  build_address_def build_us_address_def replace_chr_def Let_def

lemma classify_and_build_addresses_eq:
  "classify_and_build_addresses r =
     (if has_mexico_origin r \<and> \<not> has_mexico_dest r then
        (if truthy (norm_cell (row_get r ''Destination City'')) \<and>
            truthy (norm_cell (row_get r ''Destination State''))
         then (build_address (norm_cell (row_get r ''Mexico Origin City and State'')) None ''Mexico'',
               build_us_address (norm_cell (row_get r ''Destination City''))
                 (norm_cell (row_get r ''Destination State''))
                 (norm_cell (row_get r ''Destination Zip'')))
         else (None, None))
      else if \<not> has_mexico_origin r \<and> has_mexico_dest r then
        (if truthy (norm_cell (row_get r ''Origin City'')) \<and>
            truthy (norm_cell (row_get r ''Origin State''))
         then (build_us_address (norm_cell (row_get r ''Origin City''))
                 (norm_cell (row_get r ''Origin State''))
                 (norm_cell (row_get r ''Origin Zip'')),
               build_address (norm_cell (row_get r ''Mexico Dest City and State'')) None ''Mexico'')
         else (None, None))
      else if has_mexico_origin r \<and> has_mexico_dest r then
        (build_address (norm_cell (row_get r ''Mexico Origin City and State'')) None ''Mexico'',
         build_address (norm_cell (row_get r ''Mexico Dest City and State'')) None ''Mexico'')
      else (None, None))"
  by (simp add: classify_and_build_addresses_def classify_rule1 classify_rule2 classify_rule3
      classify_rule4)

text \<open>
  Claim C3. Which of the four rules applies is a function of the two presence signals
  alone, and exactly one applies. Rule 1 yields the Mexico origin address and the U.S.
  destination address, rule 2 the U.S. origin address and the Mexico destination address
  (in both, no pair at all when the U.S. address cannot be built), rule 3 always the two
  Mexico addresses, rule 4 no pair. The Mexico address of a rule is never absent.
\<close>

theorem classifier_four_rules:
  "(rule_applied r = Rule1 \<longleftrightarrow> has_mexico_origin r \<and> \<not> has_mexico_dest r) \<and>
   (rule_applied r = Rule2 \<longleftrightarrow> \<not> has_mexico_origin r \<and> has_mexico_dest r) \<and>
   (rule_applied r = Rule3 \<longleftrightarrow> has_mexico_origin r \<and> has_mexico_dest r) \<and>
   (rule_applied r = Rule4 \<longleftrightarrow> \<not> has_mexico_origin r \<and> \<not> has_mexico_dest r) \<and>
   (rule_applied r = Rule1 \<longrightarrow>
      build_address (norm_cell (row_get r ''Mexico Origin City and State'')) None ''Mexico'' \<noteq> None \<and>
      classify_and_build_addresses r =
        (if build_us_address (norm_cell (row_get r ''Destination City''))
              (norm_cell (row_get r ''Destination State''))
              (norm_cell (row_get r ''Destination Zip'')) \<noteq> None
         then (build_address (norm_cell (row_get r ''Mexico Origin City and State'')) None ''Mexico'',
               build_us_address (norm_cell (row_get r ''Destination City''))
                 (norm_cell (row_get r ''Destination State''))
                 (norm_cell (row_get r ''Destination Zip'')))
         else (None, None))) \<and>
   (rule_applied r = Rule2 \<longrightarrow>
      build_address (norm_cell (row_get r ''Mexico Dest City and State'')) None ''Mexico'' \<noteq> None \<and>
      classify_and_build_addresses r =
        (if build_us_address (norm_cell (row_get r ''Origin City''))
              (norm_cell (row_get r ''Origin State''))
              (norm_cell (row_get r ''Origin Zip'')) \<noteq> None
         then (build_us_address (norm_cell (row_get r ''Origin City''))
                 (norm_cell (row_get r ''Origin State''))
                 (norm_cell (row_get r ''Origin Zip'')),
               build_address (norm_cell (row_get r ''Mexico Dest City and State'')) None ''Mexico'')
         else (None, None))) \<and>
   (rule_applied r = Rule3 \<longrightarrow>
      build_address (norm_cell (row_get r ''Mexico Origin City and State'')) None ''Mexico'' \<noteq> None \<and>
      build_address (norm_cell (row_get r ''Mexico Dest City and State'')) None ''Mexico'' \<noteq> None \<and>
      classify_and_build_addresses r =
        (build_address (norm_cell (row_get r ''Mexico Origin City and State'')) None ''Mexico'',
         build_address (norm_cell (row_get r ''Mexico Dest City and State'')) None ''Mexico'')) \<and>
   (rule_applied r = Rule4 \<longrightarrow> classify_and_build_addresses r = (None, None))"
proof -
  have mo: "has_mexico_origin r \<Longrightarrow>
      build_address (norm_cell (row_get r ''Mexico Origin City and State'')) None ''Mexico'' \<noteq> None"
    by (simp add: build_address_None has_mexico_origin_def)
  have md: "has_mexico_dest r \<Longrightarrow>
      build_address (norm_cell (row_get r ''Mexico Dest City and State'')) None ''Mexico'' \<noteq> None"
    by (simp add: build_address_None has_mexico_dest_def)
  show ?thesis
    using mo md
    by (cases "has_mexico_origin r"; cases "has_mexico_dest r")
       (simp_all add: rule_applied_eq classify_and_build_addresses_eq build_us_address_None)
qed

theorem classifier_four_rules_witness:
  "rule_applied (mk_row (CStr ''TIJUANA,BC'') CNaN CNaN CNaN CNaN
       (CStr ''San Diego'') (CStr ''CA'') (CStr ''92101'')) = Rule1 \<and>
   classify_and_build_addresses (mk_row (CStr ''TIJUANA,BC'') CNaN CNaN CNaN CNaN
       (CStr ''San Diego'') (CStr ''CA'') (CStr ''92101''))
     = (Some ''TIJUANA, BC, Mexico'', Some ''San Diego, CA, 92101, USA'') \<and>
   rule_applied (mk_row CNaN (CStr ''JUAREZ,NL'') (CStr ''El Paso'') (CStr ''TX'') CNaN
       CNaN CNaN CNaN) = Rule2 \<and>
   classify_and_build_addresses (mk_row CNaN (CStr ''JUAREZ,NL'') (CStr ''El Paso'') (CStr ''TX'') CNaN
       CNaN CNaN CNaN)
     = (Some ''El Paso, TX, USA'', Some ''JUAREZ, NL, Mexico'') \<and>
   rule_applied (mk_row (CStr ''TIJUANA,BC'') (CStr ''JUAREZ,NL'') CNaN CNaN CNaN
       CNaN CNaN CNaN) = Rule3 \<and>
   classify_and_build_addresses (mk_row (CStr ''TIJUANA,BC'') (CStr ''JUAREZ,NL'') CNaN CNaN CNaN
       CNaN CNaN CNaN)
     = (Some ''TIJUANA, BC, Mexico'', Some ''JUAREZ, NL, Mexico'') \<and>
   rule_applied (mk_row CNaN (CStr ''  '') (CStr ''El Paso'') (CStr ''TX'') CNaN
       (CStr ''San Diego'') (CStr ''CA'') (CStr ''92101'')) = Rule4 \<and>
   classify_and_build_addresses (mk_row CNaN (CStr ''  '') (CStr ''El Paso'') (CStr ''TX'') CNaN
       (CStr ''San Diego'') (CStr ''CA'') (CStr ''92101''))
     = (None, None)"
proof -
  let ?r1 = "mk_row (CStr ''TIJUANA,BC'') CNaN CNaN CNaN CNaN
       (CStr ''San Diego'') (CStr ''CA'') (CStr ''92101'')"
  let ?r2 = "mk_row CNaN (CStr ''JUAREZ,NL'') (CStr ''El Paso'') (CStr ''TX'') CNaN
       CNaN CNaN CNaN"
  let ?r3 = "mk_row (CStr ''TIJUANA,BC'') (CStr ''JUAREZ,NL'') CNaN CNaN CNaN
       CNaN CNaN CNaN"
  let ?r4 = "mk_row CNaN (CStr ''  '') (CStr ''El Paso'') (CStr ''TX'') CNaN
       (CStr ''San Diego'') (CStr ''CA'') (CStr ''92101'')"
  have 1: "rule_applied ?r1 = Rule1 \<and> classify_and_build_addresses ?r1
      = (Some ''TIJUANA, BC, Mexico'', Some ''San Diego, CA, 92101, USA'')"
    using classifier_four_rules [of ?r1] by (simp add: row_eval)
  have 2: "rule_applied ?r2 = Rule2 \<and> classify_and_build_addresses ?r2
      = (Some ''El Paso, TX, USA'', Some ''JUAREZ, NL, Mexico'')"
    using classifier_four_rules [of ?r2] by (simp add: row_eval)
  have 3: "rule_applied ?r3 = Rule3 \<and> classify_and_build_addresses ?r3
      = (Some ''TIJUANA, BC, Mexico'', Some ''JUAREZ, NL, Mexico'')"
    using classifier_four_rules [of ?r3] by (simp add: row_eval)
  have 4: "rule_applied ?r4 = Rule4 \<and> classify_and_build_addresses ?r4 = (None, None)"
    using classifier_four_rules [of ?r4] by (simp add: row_eval)
  from 1 2 3 4 show ?thesis by simp
qed

subsection \<open>Records without an address pair\<close>

lemma process_one_no_pair:
  "classify_and_build_addresses r = (None, None) \<Longrightarrow> process_one api_key post idx r = Inr (idx, None)"
  by (simp add: process_one_def)

lemma build_address_Some:
  "truthy cs \<Longrightarrow> \<exists>a. build_address cs None ''Mexico'' = Some a \<and> a \<noteq> []"
  by (cases cs) (simp_all add: build_address_def)

lemma build_us_address_Some:
  "truthy c \<Longrightarrow> truthy s \<Longrightarrow> \<exists>a. build_us_address c s z = Some a \<and> a \<noteq> []"
  by (simp add: build_us_address_def Let_def)

lemma classify_both_or_none:
  "classify_and_build_addresses r = (None, None) \<or>
   (\<exists>a b. classify_and_build_addresses r = (Some a, Some b) \<and> a \<noteq> [] \<and> b \<noteq> [])"
proof -
  let ?mo = "norm_cell (row_get r ''Mexico Origin City and State'')"
  let ?md = "norm_cell (row_get r ''Mexico Dest City and State'')"
  consider (r1) "has_mexico_origin r" "\<not> has_mexico_dest r"
    | (r2) "\<not> has_mexico_origin r" "has_mexico_dest r"
    | (r3) "has_mexico_origin r" "has_mexico_dest r"
    | (r4) "\<not> has_mexico_origin r" "\<not> has_mexico_dest r"
    by blast
  then show ?thesis
  proof cases
    case r1
    let ?c = "norm_cell (row_get r ''Destination City'')"
    let ?s = "norm_cell (row_get r ''Destination State'')"
    let ?z = "norm_cell (row_get r ''Destination Zip'')"
    show ?thesis
    proof (cases "truthy ?c \<and> truthy ?s")
      case True
      obtain a where a: "build_address ?mo None ''Mexico'' = Some a" "a \<noteq> []"
        using build_address_Some [of ?mo] r1 by (auto simp: has_mexico_origin_def)
      obtain b where b: "build_us_address ?c ?s ?z = Some b" "b \<noteq> []"
        using build_us_address_Some [of ?c ?s ?z] True by auto
      have "classify_and_build_addresses r = (Some a, Some b)"
        using r1 True a b by (simp add: classify_and_build_addresses_eq)
      with a b show ?thesis by blast
    next
      case False
      then have "classify_and_build_addresses r = (None, None)"
        using r1 by (auto simp: classify_and_build_addresses_eq)
      then show ?thesis by blast
    qed
  next
    case r2
    let ?c = "norm_cell (row_get r ''Origin City'')"
    let ?s = "norm_cell (row_get r ''Origin State'')"
    let ?z = "norm_cell (row_get r ''Origin Zip'')"
    show ?thesis
    proof (cases "truthy ?c \<and> truthy ?s")
      case True
      obtain a where a: "build_address ?md None ''Mexico'' = Some a" "a \<noteq> []"
        using build_address_Some [of ?md] r2 by (auto simp: has_mexico_dest_def)
      obtain b where b: "build_us_address ?c ?s ?z = Some b" "b \<noteq> []"
        using build_us_address_Some [of ?c ?s ?z] True by auto
      have "classify_and_build_addresses r = (Some b, Some a)"
        using r2 True a b by (simp add: classify_and_build_addresses_eq)
      with a b show ?thesis by blast
    next
      case False
      then have "classify_and_build_addresses r = (None, None)"
        using r2 by (auto simp: classify_and_build_addresses_eq)
      then show ?thesis by blast
    qed
  next
    case r3
    obtain a where a: "build_address ?mo None ''Mexico'' = Some a" "a \<noteq> []"
      using build_address_Some [of ?mo] r3 by (auto simp: has_mexico_origin_def)
    obtain b where b: "build_address ?md None ''Mexico'' = Some b" "b \<noteq> []"
      using build_address_Some [of ?md] r3 by (auto simp: has_mexico_dest_def)
    have "classify_and_build_addresses r = (Some a, Some b)"
      using r3 a b by (simp add: classify_and_build_addresses_eq)
    with a b show ?thesis by blast
  next
    case r4
    then have "classify_and_build_addresses r = (None, None)"
      by (simp add: classify_and_build_addresses_eq)
    then show ?thesis by blast
  qed
qed

text \<open>
  Claim C4. A record of rule 1 whose destination city or state is missing after
  normalisation, and a record of rule 2 whose origin city or state is missing, is
  classified exactly as a record of rule 4: it has no address pair. For such a record the
  task returns \<^verbatim>\<open>None\<close> whatever the provider would answer, so no lookup is made. In
  general the classifier returns either no address at all or two non-empty addresses.
\<close>

theorem us_address_fallback:
  "(has_mexico_origin r \<and> \<not> has_mexico_dest r \<and>
      (\<not> truthy (norm_cell (row_get r ''Destination City'')) \<or>
       \<not> truthy (norm_cell (row_get r ''Destination State''))) \<longrightarrow>
        classify_and_build_addresses r = (None, None) \<and>
        (\<forall>api_key post idx. process_one api_key post idx r = Inr (idx, None))) \<and>
   (\<not> has_mexico_origin r \<and> has_mexico_dest r \<and>
      (\<not> truthy (norm_cell (row_get r ''Origin City'')) \<or>
       \<not> truthy (norm_cell (row_get r ''Origin State''))) \<longrightarrow>
        classify_and_build_addresses r = (None, None) \<and>
        (\<forall>api_key post idx. process_one api_key post idx r = Inr (idx, None))) \<and>
   (\<not> has_mexico_origin r \<and> \<not> has_mexico_dest r \<longrightarrow>
        classify_and_build_addresses r = (None, None) \<and>
        (\<forall>api_key post idx. process_one api_key post idx r = Inr (idx, None))) \<and>
   (classify_and_build_addresses r = (None, None) \<or>
    (\<exists>a b. classify_and_build_addresses r = (Some a, Some b) \<and> a \<noteq> [] \<and> b \<noteq> []))"
proof -
  have 1: "has_mexico_origin r \<and> \<not> has_mexico_dest r \<and>
      (\<not> truthy (norm_cell (row_get r ''Destination City'')) \<or>
       \<not> truthy (norm_cell (row_get r ''Destination State''))) \<longrightarrow>
        classify_and_build_addresses r = (None, None)"
    by (simp add: classify_and_build_addresses_eq)
  have 2: "\<not> has_mexico_origin r \<and> has_mexico_dest r \<and>
      (\<not> truthy (norm_cell (row_get r ''Origin City'')) \<or>
       \<not> truthy (norm_cell (row_get r ''Origin State''))) \<longrightarrow>
        classify_and_build_addresses r = (None, None)"
    by (simp add: classify_and_build_addresses_eq)
  have 3: "\<not> has_mexico_origin r \<and> \<not> has_mexico_dest r \<longrightarrow>
        classify_and_build_addresses r = (None, None)"
    by (simp add: classify_and_build_addresses_eq)
  from 1 2 3 classify_both_or_none [of r] show ?thesis
    by (simp add: process_one_no_pair)
qed

theorem us_address_fallback_witness:
  "classify_and_build_addresses
     (mk_row (CStr ''TIJUANA,BC'') CNaN CNaN CNaN CNaN (CStr ''San Diego'') (CStr ''  '') (CStr ''92101''))
     = (None, None) \<and>
   process_one (Some ''key'') (\<lambda>a b. Inl TransportError) 0
     (mk_row (CStr ''TIJUANA,BC'') CNaN CNaN CNaN CNaN (CStr ''San Diego'') (CStr ''  '') (CStr ''92101''))
     = Inr (0, None) \<and>
   classify_and_build_addresses
     (mk_row CNone (CStr ''JUAREZ,NL'') CNaN (CStr ''TX'') (CStr ''79901'') CNaN CNaN CNaN)
     = (None, None) \<and>
   process_one (Some ''key'') (\<lambda>a b. Inl TransportError) 1
     (mk_row CNone (CStr ''JUAREZ,NL'') CNaN (CStr ''TX'') (CStr ''79901'') CNaN CNaN CNaN)
     = Inr (1, None) \<and>
   classify_and_build_addresses
     (mk_row CNaN CNaN (CStr ''El Paso'') (CStr ''TX'') CNaN (CStr ''San Diego'') (CStr ''CA'') CNaN)
     = (None, None)"
proof -
  let ?r1 = "mk_row (CStr ''TIJUANA,BC'') CNaN CNaN CNaN CNaN (CStr ''San Diego'') (CStr ''  '') (CStr ''92101'')"
  let ?r2 = "mk_row CNone (CStr ''JUAREZ,NL'') CNaN (CStr ''TX'') (CStr ''79901'') CNaN CNaN CNaN"
  let ?r4 = "mk_row CNaN CNaN (CStr ''El Paso'') (CStr ''TX'') CNaN (CStr ''San Diego'') (CStr ''CA'') CNaN"
  have h1: "has_mexico_origin ?r1 \<and> \<not> has_mexico_dest ?r1 \<and>
      \<not> truthy (norm_cell (row_get ?r1 ''Destination State''))"
    by (simp add: row_eval)
  have h2: "\<not> has_mexico_origin ?r2 \<and> has_mexico_dest ?r2 \<and>
      \<not> truthy (norm_cell (row_get ?r2 ''Origin City''))"
    by (simp add: row_eval)
  have h4: "\<not> has_mexico_origin ?r4 \<and> \<not> has_mexico_dest ?r4"
    by (simp add: row_eval)
  have c1: "classify_and_build_addresses ?r1 = (None, None) \<and>
      process_one (Some ''key'') (\<lambda>a b. Inl TransportError) 0 ?r1 = Inr (0, None)"
    using us_address_fallback [of ?r1] h1 by blast
  have c2: "classify_and_build_addresses ?r2 = (None, None) \<and>
      process_one (Some ''key'') (\<lambda>a b. Inl TransportError) 1 ?r2 = Inr (1, None)"
    using us_address_fallback [of ?r2] h2 by blast
  have c4: "classify_and_build_addresses ?r4 = (None, None)"
    using us_address_fallback [of ?r4] h4 by blast
  from c1 c2 c4 show ?thesis by simp
qed

subsection \<open>The Mexico side carries no postal code\<close>

lemma build_address_no_zip:
  "truthy cs \<Longrightarrow>
   build_address cs None ''Mexico'' = Some (replace_chr CHR '','' '', '' (the cs) @ '', Mexico'')"
  by (cases cs) (simp_all add: build_address_def)

lemma zip_upd_fields:
  "row_get (r(''Origin Zip'' \<mapsto> za, ''Destination Zip'' \<mapsto> zb)) ''Mexico Origin City and State''
     = row_get r ''Mexico Origin City and State''"
  "row_get (r(''Origin Zip'' \<mapsto> za, ''Destination Zip'' \<mapsto> zb)) ''Mexico Dest City and State''
     = row_get r ''Mexico Dest City and State''"
  "row_get (r(''Origin Zip'' \<mapsto> za, ''Destination Zip'' \<mapsto> zb)) ''Origin City''
     = row_get r ''Origin City''"
  "row_get (r(''Origin Zip'' \<mapsto> za, ''Destination Zip'' \<mapsto> zb)) ''Origin State''
     = row_get r ''Origin State''"
  "row_get (r(''Origin Zip'' \<mapsto> za, ''Destination Zip'' \<mapsto> zb)) ''Destination City''
     = row_get r ''Destination City''"
  "row_get (r(''Origin Zip'' \<mapsto> za, ''Destination Zip'' \<mapsto> zb)) ''Destination State''
     = row_get r ''Destination State''"
  by (simp_all add: row_get_def)

lemma zip_upd_signals:
  "has_mexico_origin (r(''Origin Zip'' \<mapsto> za, ''Destination Zip'' \<mapsto> zb)) = has_mexico_origin r"
  "has_mexico_dest (r(''Origin Zip'' \<mapsto> za, ''Destination Zip'' \<mapsto> zb)) = has_mexico_dest r"
  by (simp_all only: has_mexico_origin_def has_mexico_dest_def zip_upd_fields)

text \<open>The component of the returned pair that is a Mexico address, by rule.\<close>

lemma mexico_origin_side:
  "has_mexico_origin r \<Longrightarrow>
   fst (classify_and_build_addresses r) = None \<or>
   fst (classify_and_build_addresses r)
     = build_address (norm_cell (row_get r ''Mexico Origin City and State'')) None ''Mexico''"
  by (simp add: classify_and_build_addresses_eq)

lemma mexico_dest_side:
  "has_mexico_dest r \<Longrightarrow>
   snd (classify_and_build_addresses r) = None \<or>
   snd (classify_and_build_addresses r)
     = build_address (norm_cell (row_get r ''Mexico Dest City and State'')) None ''Mexico''"
  by (simp add: classify_and_build_addresses_eq)

lemma mexico_origin_side_zip_free:
  "has_mexico_origin r \<Longrightarrow>
   fst (classify_and_build_addresses (r(''Origin Zip'' \<mapsto> za, ''Destination Zip'' \<mapsto> zb)))
     = fst (classify_and_build_addresses r)"
  unfolding classify_and_build_addresses_eq [of "r(''Origin Zip'' \<mapsto> za, ''Destination Zip'' \<mapsto> zb)"]
    classify_and_build_addresses_eq [of r] zip_upd_signals zip_upd_fields
  by simp

lemma mexico_dest_side_zip_free:
  "has_mexico_dest r \<Longrightarrow>
   snd (classify_and_build_addresses (r(''Origin Zip'' \<mapsto> za, ''Destination Zip'' \<mapsto> zb)))
     = snd (classify_and_build_addresses r)"
  unfolding classify_and_build_addresses_eq [of "r(''Origin Zip'' \<mapsto> za, ''Destination Zip'' \<mapsto> zb)"]
    classify_and_build_addresses_eq [of r] zip_upd_signals zip_upd_fields
  by simp

text \<open>
  Claim C9. Whatever the rule, the classifier calls the Mexico address builder with no
  postal code: a Mexico-side component of the returned pair, when present, is
  \<open>build_address token None ''Mexico''\<close>, that is the token with a space after every
  comma followed by \<open>, Mexico\<close>, and it does not change when the two zip cells of the
  record are overwritten. For a token \<open>CITY,ST\<close> this is \<open>CITY, ST, Mexico\<close>.
\<close>

theorem mexico_side_without_zip:
  "(has_mexico_origin r \<longrightarrow>
      (fst (classify_and_build_addresses r) = None \<or>
       fst (classify_and_build_addresses r)
         = build_address (norm_cell (row_get r ''Mexico Origin City and State'')) None ''Mexico'') \<and>
      build_address (norm_cell (row_get r ''Mexico Origin City and State'')) None ''Mexico''
         = Some (replace_chr CHR '','' '', ''
                   (the (norm_cell (row_get r ''Mexico Origin City and State''))) @ '', Mexico'') \<and>
      fst (classify_and_build_addresses (r(''Origin Zip'' \<mapsto> za, ''Destination Zip'' \<mapsto> zb)))
         = fst (classify_and_build_addresses r)) \<and>
   (has_mexico_dest r \<longrightarrow>
      (snd (classify_and_build_addresses r) = None \<or>
       snd (classify_and_build_addresses r)
         = build_address (norm_cell (row_get r ''Mexico Dest City and State'')) None ''Mexico'') \<and>
      build_address (norm_cell (row_get r ''Mexico Dest City and State'')) None ''Mexico''
         = Some (replace_chr CHR '','' '', ''
                   (the (norm_cell (row_get r ''Mexico Dest City and State''))) @ '', Mexico'') \<and>
      snd (classify_and_build_addresses (r(''Origin Zip'' \<mapsto> za, ''Destination Zip'' \<mapsto> zb)))
         = snd (classify_and_build_addresses r)) \<and>
   (CHR '','' \<notin> set city \<and> CHR '','' \<notin> set st \<and> city @ st \<noteq> [] \<longrightarrow>
      build_address (Some (city @ '','' @ st)) None ''Mexico'' = Some (city @ '', '' @ st @ '', Mexico''))"
proof -
  have o: "has_mexico_origin r \<Longrightarrow>
      build_address (norm_cell (row_get r ''Mexico Origin City and State'')) None ''Mexico''
         = Some (replace_chr CHR '','' '', ''
                   (the (norm_cell (row_get r ''Mexico Origin City and State''))) @ '', Mexico'')"
    by (simp add: has_mexico_origin_def build_address_no_zip)
  have d: "has_mexico_dest r \<Longrightarrow>
      build_address (norm_cell (row_get r ''Mexico Dest City and State'')) None ''Mexico''
         = Some (replace_chr CHR '','' '', ''
                   (the (norm_cell (row_get r ''Mexico Dest City and State''))) @ '', Mexico'')"
    by (simp add: has_mexico_dest_def build_address_no_zip)
  have f: "CHR '','' \<notin> set city \<and> CHR '','' \<notin> set st \<and> city @ st \<noteq> [] \<longrightarrow>
      build_address (Some (city @ '','' @ st)) None ''Mexico'' = Some (city @ '', '' @ st @ '', Mexico'')"
    by (simp add: build_address_def replace_chr_append replace_chr_Cons replace_chr_absent)
  from o d f mexico_origin_side [of r] mexico_dest_side [of r]
    mexico_origin_side_zip_free [of r za zb] mexico_dest_side_zip_free [of r za zb]
  show ?thesis by blast
qed

theorem mexico_side_without_zip_witness:
  "classify_and_build_addresses
     (mk_row (CStr ''TIJUANA,BC'') (CStr ''JUAREZ,NL'') (CStr ''A'') (CStr ''B'') (CStr ''11111'')
        (CStr ''C'') (CStr ''D'') (CStr ''22222''))
     = (Some ''TIJUANA, BC, Mexico'', Some ''JUAREZ, NL, Mexico'') \<and>
   fst (classify_and_build_addresses
     ((mk_row (CStr ''TIJUANA,BC'') CNaN CNaN CNaN (CStr ''22000'')
        (CStr ''San Diego'') (CStr ''CA'') (CStr ''92101''))
      (''Origin Zip'' \<mapsto> CStr ''99999'', ''Destination Zip'' \<mapsto> CInt 5)))
     = Some ''TIJUANA, BC, Mexico''"
proof -
  let ?r3 = "mk_row (CStr ''TIJUANA,BC'') (CStr ''JUAREZ,NL'') (CStr ''A'') (CStr ''B'') (CStr ''11111'')
        (CStr ''C'') (CStr ''D'') (CStr ''22222'')"
  let ?r1 = "mk_row (CStr ''TIJUANA,BC'') CNaN CNaN CNaN (CStr ''22000'')
        (CStr ''San Diego'') (CStr ''CA'') (CStr ''92101'')"
  let ?r1' = "?r1(''Origin Zip'' \<mapsto> CStr ''99999'', ''Destination Zip'' \<mapsto> CInt 5)"
  have tj: "CHR '','' \<notin> set ''TIJUANA'' \<and> CHR '','' \<notin> set ''BC'' \<and> ''TIJUANA'' @ ''BC'' \<noteq> []"
    and jz: "CHR '','' \<notin> set ''JUAREZ'' \<and> CHR '','' \<notin> set ''NL'' \<and> ''JUAREZ'' @ ''NL'' \<noteq> []"
    by simp_all
  have s3: "has_mexico_origin ?r3" "has_mexico_dest ?r3"
    and n3o: "norm_cell (row_get ?r3 ''Mexico Origin City and State'') = Some (''TIJUANA'' @ '','' @ ''BC'')"
    and n3d: "norm_cell (row_get ?r3 ''Mexico Dest City and State'') = Some (''JUAREZ'' @ '','' @ ''NL'')"
    and p3: "fst (classify_and_build_addresses ?r3) \<noteq> None"
      "snd (classify_and_build_addresses ?r3) \<noteq> None"
    by (simp_all add: row_eval classify_and_build_addresses_eq)
  have s1: "has_mexico_origin ?r1"
    and n1o: "norm_cell (row_get ?r1 ''Mexico Origin City and State'') = Some (''TIJUANA'' @ '','' @ ''BC'')"
    and p1: "fst (classify_and_build_addresses ?r1) \<noteq> None"
    by (simp_all add: row_eval classify_and_build_addresses_eq)
  note T3o = mexico_side_without_zip [where r = ?r3 and city = "''TIJUANA''" and st = "''BC''"
      and za = CNone and zb = CNone]
  note T3d = mexico_side_without_zip [where r = ?r3 and city = "''JUAREZ''" and st = "''NL''"
      and za = CNone and zb = CNone]
  note T1 = mexico_side_without_zip [where r = ?r1 and city = "''TIJUANA''" and st = "''BC''"
      and za = "CStr ''99999''" and zb = "CInt 5"]
  have "fst (classify_and_build_addresses ?r3)
      = build_address (norm_cell (row_get ?r3 ''Mexico Origin City and State'')) None ''Mexico''"
    using T3o s3 p3 by blast
  also have "\<dots> = build_address (Some (''TIJUANA'' @ '','' @ ''BC'')) None ''Mexico''"
    by (simp only: n3o)
  also have "\<dots> = Some (''TIJUANA'' @ '', '' @ ''BC'' @ '', Mexico'')"
    using T3o tj by blast
  finally have a: "fst (classify_and_build_addresses ?r3) = Some ''TIJUANA, BC, Mexico''"
    by simp
  have "snd (classify_and_build_addresses ?r3)
      = build_address (norm_cell (row_get ?r3 ''Mexico Dest City and State'')) None ''Mexico''"
    using T3d s3 p3 by blast
  also have "\<dots> = build_address (Some (''JUAREZ'' @ '','' @ ''NL'')) None ''Mexico''"
    by (simp only: n3d)
  also have "\<dots> = Some (''JUAREZ'' @ '', '' @ ''NL'' @ '', Mexico'')"
    using T3d jz by blast
  finally have b: "snd (classify_and_build_addresses ?r3) = Some ''JUAREZ, NL, Mexico''"
    by simp
  have "fst (classify_and_build_addresses ?r1') = fst (classify_and_build_addresses ?r1)"
    using T1 s1 by blast
  also have "\<dots> = build_address (norm_cell (row_get ?r1 ''Mexico Origin City and State'')) None ''Mexico''"
    using T1 s1 p1 by blast
  also have "\<dots> = build_address (Some (''TIJUANA'' @ '','' @ ''BC'')) None ''Mexico''"
    by (simp only: n1o)
  also have "\<dots> = Some (''TIJUANA'' @ '', '' @ ''BC'' @ '', Mexico'')"
    using T1 tj by blast
  finally have c: "fst (classify_and_build_addresses ?r1') = Some ''TIJUANA, BC, Mexico''"
    by simp
  from a b c show ?thesis by (simp add: prod_eq_iff)
qed

subsection \<open>Normalisation\<close>

lemma strip_decomp:
  "\<exists>l ws. t = l @ strip t @ ws \<and> (\<forall>c \<in> set l. is_space c) \<and> (\<forall>c \<in> set ws. is_space c)"
proof -
  obtain ws where ws: "dropWhile is_space t = strip t @ ws" "\<forall>c \<in> set ws. is_space c"
    using strip_prefix by blast
  have "t = takeWhile is_space t @ dropWhile is_space t" by simp
  then have "t = takeWhile is_space t @ strip t @ ws" using ws by simp
  moreover have "\<forall>c \<in> set (takeWhile is_space t). is_space c"
    by (auto dest: set_takeWhileD)
  ultimately show ?thesis using ws by blast
qed

lemma build_us_address_normed:
  "norm_cell vc = Some c \<Longrightarrow> c \<noteq> [] \<Longrightarrow> norm_cell vs = Some s \<Longrightarrow> s \<noteq> [] \<Longrightarrow>
   truthy z \<Longrightarrow>
   build_us_address (Some c) (Some s) z = Some (c @ '', '' @ s @ '', '' @ the z @ '', USA'')"
  by (simp add: build_us_address_def norm_cell_strip)

text \<open>
  Claim C10. \<^verbatim>\<open>norm\<close> maps \<^verbatim>\<open>None\<close> and the float NaN to \<^verbatim>\<open>None\<close> and every other
  value to its \<^verbatim>\<open>str\<close> rendering with the whitespace at both ends removed (the
  rendering is the trimmed string between two runs of whitespace, and the trimmed string
  neither starts nor ends with whitespace). Hence a zip cell that is not a string enters
  the U.S. address of rule 1 and of rule 2 as its trimmed rendering, unchanged.
\<close>

theorem norm_renders_and_trims:
  "norm_cell CNone = None \<and> norm_cell CNaN = None \<and>
   (v \<noteq> CNone \<and> v \<noteq> CNaN \<longrightarrow> norm_cell v = Some (strip (py_str v))) \<and>
   (\<exists>l ws. t = l @ strip t @ ws \<and> (\<forall>c \<in> set l. is_space c) \<and> (\<forall>c \<in> set ws. is_space c)) \<and>
   (strip t \<noteq> [] \<longrightarrow> \<not> is_space (hd (strip t)) \<and> \<not> is_space (last (strip t))) \<and>
   (has_mexico_origin r \<and> \<not> has_mexico_dest r \<and>
    norm_cell (row_get r ''Destination City'') = Some c \<and> c \<noteq> [] \<and>
    norm_cell (row_get r ''Destination State'') = Some s \<and> s \<noteq> [] \<and>
    row_get r ''Destination Zip'' = z \<and> z \<noteq> CNone \<and> z \<noteq> CNaN \<and> strip (py_str z) \<noteq> [] \<longrightarrow>
      snd (classify_and_build_addresses r)
        = Some (c @ '', '' @ s @ '', '' @ strip (py_str z) @ '', USA'')) \<and>
   (\<not> has_mexico_origin r \<and> has_mexico_dest r \<and>
    norm_cell (row_get r ''Origin City'') = Some c \<and> c \<noteq> [] \<and>
    norm_cell (row_get r ''Origin State'') = Some s \<and> s \<noteq> [] \<and>
    row_get r ''Origin Zip'' = z \<and> z \<noteq> CNone \<and> z \<noteq> CNaN \<and> strip (py_str z) \<noteq> [] \<longrightarrow>
      fst (classify_and_build_addresses r)
        = Some (c @ '', '' @ s @ '', '' @ strip (py_str z) @ '', USA''))"
proof -
  have n: "v \<noteq> CNone \<and> v \<noteq> CNaN \<longrightarrow> norm_cell v = Some (strip (py_str v))"
    by (simp add: norm_cell_cases)
  have nz: "z \<noteq> CNone \<Longrightarrow> z \<noteq> CNaN \<Longrightarrow> norm_cell z = Some (strip (py_str z))"
    by (simp add: norm_cell_cases)
  have r1: "has_mexico_origin r \<and> \<not> has_mexico_dest r \<and>
    norm_cell (row_get r ''Destination City'') = Some c \<and> c \<noteq> [] \<and>
    norm_cell (row_get r ''Destination State'') = Some s \<and> s \<noteq> [] \<and>
    row_get r ''Destination Zip'' = z \<and> z \<noteq> CNone \<and> z \<noteq> CNaN \<and> strip (py_str z) \<noteq> [] \<longrightarrow>
      snd (classify_and_build_addresses r)
        = Some (c @ '', '' @ s @ '', '' @ strip (py_str z) @ '', USA'')"
  proof (intro impI, elim conjE)
    assume a: "has_mexico_origin r" "\<not> has_mexico_dest r"
      "norm_cell (row_get r ''Destination City'') = Some c" "c \<noteq> []"
      "norm_cell (row_get r ''Destination State'') = Some s" "s \<noteq> []"
      "row_get r ''Destination Zip'' = z" "z \<noteq> CNone" "z \<noteq> CNaN" "strip (py_str z) \<noteq> []"
    have "snd (classify_and_build_addresses r)
        = build_us_address (Some c) (Some s) (Some (strip (py_str z)))"
      using a nz by (simp add: classify_and_build_addresses_eq)
    also have "\<dots> = Some (c @ '', '' @ s @ '', '' @ strip (py_str z) @ '', USA'')"
      using build_us_address_normed [OF a(3) a(4) a(5) a(6), of "Some (strip (py_str z))"] a(10)
      by simp
    finally show "snd (classify_and_build_addresses r)
        = Some (c @ '', '' @ s @ '', '' @ strip (py_str z) @ '', USA'')" .
  qed
  have r2: "\<not> has_mexico_origin r \<and> has_mexico_dest r \<and>
    norm_cell (row_get r ''Origin City'') = Some c \<and> c \<noteq> [] \<and>
    norm_cell (row_get r ''Origin State'') = Some s \<and> s \<noteq> [] \<and>
    row_get r ''Origin Zip'' = z \<and> z \<noteq> CNone \<and> z \<noteq> CNaN \<and> strip (py_str z) \<noteq> [] \<longrightarrow>
      fst (classify_and_build_addresses r)
        = Some (c @ '', '' @ s @ '', '' @ strip (py_str z) @ '', USA'')"
  proof (intro impI, elim conjE)
    assume a: "\<not> has_mexico_origin r" "has_mexico_dest r"
      "norm_cell (row_get r ''Origin City'') = Some c" "c \<noteq> []"
      "norm_cell (row_get r ''Origin State'') = Some s" "s \<noteq> []"
      "row_get r ''Origin Zip'' = z" "z \<noteq> CNone" "z \<noteq> CNaN" "strip (py_str z) \<noteq> []"
    have "fst (classify_and_build_addresses r)
        = build_us_address (Some c) (Some s) (Some (strip (py_str z)))"
      using a nz by (simp add: classify_and_build_addresses_eq)
    also have "\<dots> = Some (c @ '', '' @ s @ '', '' @ strip (py_str z) @ '', USA'')"
      using build_us_address_normed [OF a(3) a(4) a(5) a(6), of "Some (strip (py_str z))"] a(10)
      by simp
    finally show "fst (classify_and_build_addresses r)
        = Some (c @ '', '' @ s @ '', '' @ strip (py_str z) @ '', USA'')" .
  qed
  have t: "strip t \<noteq> [] \<longrightarrow> \<not> is_space (hd (strip t)) \<and> \<not> is_space (last (strip t))"
    using strip_no_leading strip_no_trailing by blast
  have k: "norm_cell CNone = None" "norm_cell CNaN = None" by simp_all
  from k n strip_decomp [of t] t r1 r2 show ?thesis by blast
qed

theorem norm_renders_and_trims_witness:
  "norm_cell (CFloat ''92101.0'') = Some ''92101.0'' \<and>
   classify_and_build_addresses
     (mk_row (CStr ''TIJUANA,BC'') CNaN CNaN CNaN CNaN
        (CStr ''San Diego'') (CStr '' CA '') (CFloat ''92101.0''))
     = (Some ''TIJUANA, BC, Mexico'', Some ''San Diego, CA, 92101.0, USA'')"
proof -
  let ?r = "mk_row (CStr ''TIJUANA,BC'') CNaN CNaN CNaN CNaN
        (CStr ''San Diego'') (CStr '' CA '') (CFloat ''92101.0'')"
  have st: "strip (py_str (CFloat ''92101.0'')) = ''92101.0''"
    by (simp add: strip_def is_space_def)
  have h: "has_mexico_origin ?r \<and> \<not> has_mexico_dest ?r \<and>
    norm_cell (row_get ?r ''Destination City'') = Some ''San Diego'' \<and> ''San Diego'' \<noteq> [] \<and>
    norm_cell (row_get ?r ''Destination State'') = Some ''CA'' \<and> ''CA'' \<noteq> [] \<and>
    row_get ?r ''Destination Zip'' = CFloat ''92101.0'' \<and> CFloat ''92101.0'' \<noteq> CNone \<and>
    CFloat ''92101.0'' \<noteq> CNaN \<and> strip (py_str (CFloat ''92101.0'')) \<noteq> []"
    by (simp add: row_eval)
  note T = norm_renders_and_trims [where v = "CFloat ''92101.0''" and r = ?r
      and c = "''San Diego''" and s = "''CA''" and z = "CFloat ''92101.0''" and t = "[]"]
  have a: "norm_cell (CFloat ''92101.0'') = Some ''92101.0''"
    using T st by simp
  have "snd (classify_and_build_addresses ?r)
      = Some (''San Diego'' @ '', '' @ ''CA'' @ '', '' @ strip (py_str (CFloat ''92101.0'')) @ '', USA'')"
    using T h by blast
  then have b: "snd (classify_and_build_addresses ?r) = Some ''San Diego, CA, 92101.0, USA''"
    by (simp only: st) simp
  have c: "fst (classify_and_build_addresses ?r) = Some ''TIJUANA, BC, Mexico''"
    by (simp add: row_eval classify_and_build_addresses_eq)
  from a b c show ?thesis by (simp add: prod_eq_iff)
qed

section \<open>The distance client\<close>

subsection \<open>Powers of two and the binary exponent\<close>

lemma pow2_powi: "pow2 e = 2 powi e"
  by (simp add: pow2_def power_int_def power_one_over inverse_eq_divide)

lemma pow2_pos: "0 < pow2 e"
  by (simp add: pow2_powi)

lemma pow2_add: "pow2 (a + b) = pow2 a * pow2 b"
  by (simp add: pow2_powi power_int_add)

lemma pow2_mono: "a \<le> b \<Longrightarrow> pow2 a \<le> pow2 b"
  by (simp add: pow2_powi power_int_increasing)

lemma pow2_strict_mono: "a < b \<Longrightarrow> pow2 a < pow2 b"
  by (simp add: pow2_powi power_int_strict_increasing)

lemma pow2_less_cancel: "pow2 a < pow2 b \<Longrightarrow> a < b"
  using pow2_mono [of b a] by (cases "a < b") auto

lemma pow2_nat: "0 \<le> e \<Longrightarrow> pow2 e = 2 ^ nat e"
  by (simp add: pow2_def)

lemma pow2_neg: "e \<le> 0 \<Longrightarrow> pow2 e = 1 / 2 ^ nat (- e)"
  by (cases "e = 0") (simp_all add: pow2_def)

lemma pow2_half: "pow2 (e - 1) = pow2 e / 2"
proof -
  have "pow2 e = pow2 (e - 1) * pow2 1"
    using pow2_add [of "e - 1" 1] by simp
  then show ?thesis by (simp add: pow2_def)
qed

lemma int_pow2_le: "2 ^ k \<le> (n::int) \<Longrightarrow> (2::rat) ^ k \<le> of_int n"
proof -
  assume "2 ^ k \<le> n"
  then have "(of_int (2 ^ k) :: rat) \<le> of_int n" by (simp only: of_int_le_iff)
  then show ?thesis by simp
qed

lemma int_less_pow2: "(n::int) < 2 ^ k \<Longrightarrow> (of_int n :: rat) + 1 \<le> 2 ^ k"
proof -
  assume "n < 2 ^ k"
  then have "n + 1 \<le> 2 ^ k" by simp
  then have "(of_int (n + 1) :: rat) \<le> of_int (2 ^ k)" by (simp only: of_int_le_iff)
  then show ?thesis by simp
qed

lemma expo_bounds:
  assumes "x \<noteq> 0"
  shows "pow2 (expo x) \<le> \<bar>x\<bar> \<and> \<bar>x\<bar> < pow2 (expo x + 1)"
proof (cases "1 \<le> \<bar>x\<bar>")
  case True
  let ?n = "\<lfloor>\<bar>x\<bar>\<rfloor>"
  let ?b = "bitlen ?n"
  have n: "1 \<le> ?n" using True by simp
  then have bb: "2 ^ nat (?b - 1) \<le> ?n \<and> ?n < 2 ^ nat ?b"
    using bitlen_bounds [of ?n] by simp
  have b1: "1 \<le> ?b"
    using n bitlen_eq_zero_iff [of ?n] bitlen_nonneg [of ?n] by (cases "?b = 0") auto
  have e: "expo x = ?b - 1" using True by (simp add: expo_def)
  have "(2::rat) ^ nat (?b - 1) = of_int (2 ^ nat (?b - 1))" by simp
  also have "\<dots> \<le> of_int ?n" using bb by (simp only: of_int_le_iff)
  also have "\<dots> \<le> \<bar>x\<bar>" by simp
  finally have lo: "pow2 (expo x) \<le> \<bar>x\<bar>"
    using b1 by (simp add: e pow2_nat)
  have "?n + 1 \<le> 2 ^ nat ?b" using bb by simp
  then have "(of_int (?n + 1) :: rat) \<le> of_int (2 ^ nat ?b)" by (simp only: of_int_le_iff)
  moreover have "\<bar>x\<bar> < of_int (?n + 1)" by linarith
  ultimately have "\<bar>x\<bar> < 2 ^ nat ?b" by simp
  then have hi: "\<bar>x\<bar> < pow2 (expo x + 1)"
    using b1 by (simp add: e pow2_nat)
  from lo hi show ?thesis ..
next
  case False
  let ?y = "1 / \<bar>x\<bar>"
  let ?n = "\<lceil>?y\<rceil> - 1"
  let ?b = "bitlen ?n"
  have xpos: "0 < \<bar>x\<bar>" using assms by simp
  have y1: "1 < ?y" using False xpos by (simp add: field_simps)
  then have "1 < \<lceil>?y\<rceil>" by (simp add: less_ceiling_iff)
  then have n: "1 \<le> ?n" by simp
  then have bb: "2 ^ nat (?b - 1) \<le> ?n \<and> ?n < 2 ^ nat ?b"
    using bitlen_bounds [of ?n] by simp
  have b1: "1 \<le> ?b"
    using n bitlen_eq_zero_iff [of ?n] bitlen_nonneg [of ?n] by (cases "?b = 0") auto
  have e: "expo x = - ?b" using False by (simp add: expo_def)
  have yn: "of_int ?n < ?y \<and> ?y \<le> of_int ?n + 1"
    by linarith
  have "(of_int ?n :: rat) + 1 \<le> 2 ^ nat ?b"
    using bb int_less_pow2 by blast
  then have "?y \<le> 2 ^ nat ?b" using yn by linarith
  then have "1 / 2 ^ nat ?b \<le> \<bar>x\<bar>"
    using xpos by (simp add: field_simps)
  then have lo: "pow2 (expo x) \<le> \<bar>x\<bar>"
    using b1 by (simp add: e pow2_neg)
  have "(2::rat) ^ nat (?b - 1) \<le> of_int ?n"
    using bb int_pow2_le by blast
  then have "(2::rat) ^ nat (?b - 1) < ?y" using yn by linarith
  then have "\<bar>x\<bar> < 1 / 2 ^ nat (?b - 1)"
    using xpos by (simp add: field_simps)
  moreover have "pow2 (expo x + 1) = 1 / 2 ^ nat (?b - 1)"
    using b1 by (simp add: e pow2_neg)
  ultimately have hi: "\<bar>x\<bar> < pow2 (expo x + 1)" by simp
  from lo hi show ?thesis ..
qed

lemma expo_less: "x \<noteq> 0 \<Longrightarrow> \<bar>x\<bar> < pow2 E \<Longrightarrow> expo x < E"
  using expo_bounds [of x] pow2_less_cancel [of "expo x" E] by linarith

lemma expo_ge: "x \<noteq> 0 \<Longrightarrow> pow2 E \<le> \<bar>x\<bar> \<Longrightarrow> E \<le> expo x"
  using expo_bounds [of x] pow2_less_cancel [of E "expo x + 1"] by linarith

subsection \<open>Rounding\<close>

lemma round_half_even_error: "\<bar>of_int (round_half_even y) - y\<bar> \<le> 1 / 2"
proof -
  have "of_int \<lfloor>y\<rfloor> \<le> y \<and> y < of_int \<lfloor>y\<rfloor> + 1" by linarith
  then show ?thesis
    by (auto simp: round_half_even_def Let_def)
qed

lemma round_half_even_of_int: "round_half_even (of_int k) = k"
  by (simp add: round_half_even_def)

lemma round_to_double_error:
  assumes x0: "x \<noteq> 0" and xb: "\<bar>x\<bar> < pow2 1023"
  shows "\<exists>r. round_to_double x = Finite r \<and>
             \<bar>r - x\<bar> \<le> pow2 (max (expo x) (- 1022) - 53)"
proof -
  let ?e = "max (expo x) (- 1022)"
  let ?u = "pow2 (?e - 52)"
  let ?n = "round_half_even (x / ?u)"
  let ?r = "of_int ?n * ?u"
  have upos: "0 < ?u" by (rule pow2_pos)
  have "\<bar>of_int ?n - x / ?u\<bar> \<le> 1 / 2" by (rule round_half_even_error)
  then have "\<bar>of_int ?n - x / ?u\<bar> * ?u \<le> 1 / 2 * ?u"
    using upos by (simp only: mult_le_cancel_right_pos)
  moreover have "\<bar>of_int ?n - x / ?u\<bar> * ?u = \<bar>?r - x\<bar>"
  proof -
    have "\<bar>of_int ?n - x / ?u\<bar> * ?u = \<bar>(of_int ?n - x / ?u) * ?u\<bar>"
      using upos by (simp add: abs_mult)
    also have "(of_int ?n - x / ?u) * ?u = ?r - x"
      using upos by (simp add: field_simps)
    finally show ?thesis .
  qed
  moreover have "1 / 2 * ?u = pow2 (?e - 53)"
    using pow2_half [of "?e - 52"] by simp
  ultimately have err: "\<bar>?r - x\<bar> \<le> pow2 (?e - 53)" by simp
  have "expo x < 1023" using x0 xb by (rule expo_less)
  then have "?e - 53 \<le> 1023" by simp
  then have "pow2 (?e - 53) \<le> pow2 1023" by (rule pow2_mono)
  then have "\<bar>?r\<bar> < pow2 1023 + pow2 1023" using err xb by linarith
  moreover have "pow2 1024 = pow2 1023 + pow2 1023"
    using pow2_half [of 1024] by simp
  ultimately have fin: "\<not> pow2 1024 \<le> \<bar>?r\<bar>" by simp
  have "round_to_double x = Finite ?r"
    using x0 fin by (simp add: round_to_double_def Let_def)
  with err show ?thesis by blast
qed

lemma round_to_double_int:
  assumes "0 \<le> m" "m < 2 ^ 53"
  shows "round_to_double (of_int m) = Finite (of_int m)"
proof (cases "m = 0")
  case True
  then show ?thesis by (simp add: round_to_double_def)
next
  case False
  let ?x = "of_int m :: rat"
  have x0: "?x \<noteq> 0" using False by simp
  have "(1::rat) \<le> of_int m" using False assms by simp
  then have "pow2 0 \<le> \<bar>?x\<bar>" by (simp add: pow2_def)
  then have e0: "0 \<le> expo ?x" using x0 by (rule expo_ge [rotated])
  have "?x < 2 ^ 53"
  proof -
    have "(of_int m :: rat) < of_int (2 ^ 53)" using assms by (simp only: of_int_less_iff)
    then show ?thesis by simp
  qed
  then have "\<bar>?x\<bar> < pow2 53" using assms by (simp add: pow2_def)
  then have e1: "expo ?x < 53" using x0 by (rule expo_less [rotated])
  let ?e = "expo ?x"
  let ?k = "nat (52 - ?e)"
  have u: "pow2 (?e - 52) = 1 / 2 ^ ?k"
    using e1 pow2_neg [of "?e - 52"] by simp
  have q: "?x / pow2 (?e - 52) = of_int (m * 2 ^ ?k)"
    by (simp add: u)
  have n: "round_half_even (?x / pow2 (?e - 52)) = m * 2 ^ ?k"
    unfolding q by (rule round_half_even_of_int)
  have r: "of_int (m * 2 ^ ?k) * pow2 (?e - 52) = ?x"
    by (simp add: u)
  have "\<bar>?x\<bar> < pow2 1024"
    using \<open>\<bar>?x\<bar> < pow2 53\<close> pow2_strict_mono [of 53 1024] by simp
  then have fin: "\<not> pow2 1024 \<le> \<bar>?x\<bar>" by simp
  have m: "max ?e (- 1022) = ?e" using e0 by simp
  show ?thesis
    unfolding round_to_double_def Let_def m n r using x0 fin by simp
qed

subsection \<open>Evaluating the rounding\<close>

lemma expo_eqI: "x \<noteq> 0 \<Longrightarrow> pow2 E \<le> \<bar>x\<bar> \<Longrightarrow> \<bar>x\<bar> < pow2 (E + 1) \<Longrightarrow> expo x = E"
  using expo_ge [of x E] expo_less [of x "E + 1"] by simp

lemma round_half_even_eqI: "\<bar>of_int n - y\<bar> < 1 / 2 \<Longrightarrow> round_half_even y = n"
proof -
  assume a: "\<bar>of_int n - y\<bar> < 1 / 2"
  have f: "of_int \<lfloor>y\<rfloor> \<le> y \<and> y < of_int \<lfloor>y\<rfloor> + 1" by linarith
  show ?thesis
  proof (cases "y - of_int \<lfloor>y\<rfloor> < 1 / 2")
    case True
    have "of_int n < (of_int \<lfloor>y\<rfloor> :: rat) + 1" "(of_int \<lfloor>y\<rfloor> :: rat) - 1 < of_int n"
      using a f True by linarith+
    then have "(of_int n :: rat) < of_int (\<lfloor>y\<rfloor> + 1)" "(of_int (\<lfloor>y\<rfloor> - 1) :: rat) < of_int n"
      by simp_all
    then have "n < \<lfloor>y\<rfloor> + 1" "\<lfloor>y\<rfloor> - 1 < n" by (simp_all only: of_int_less_iff)
    then have "n = \<lfloor>y\<rfloor>" by simp
    then show ?thesis using True by (simp add: round_half_even_def Let_def)
  next
    case False
    have "1 / 2 < y - of_int \<lfloor>y\<rfloor>"
    proof (rule ccontr)
      assume "\<not> 1 / 2 < y - of_int \<lfloor>y\<rfloor>"
      then have h: "y = of_int \<lfloor>y\<rfloor> + 1 / 2" using False by linarith
      have "(of_int (2 * n) :: rat) < of_int (2 * \<lfloor>y\<rfloor> + 2)" "(of_int (2 * \<lfloor>y\<rfloor>) :: rat) < of_int (2 * n)"
        using a h by (simp_all, linarith+)
      then have "2 * n < 2 * \<lfloor>y\<rfloor> + 2" "2 * \<lfloor>y\<rfloor> < 2 * n" by (simp_all only: of_int_less_iff)
      then show False by presburger
    qed
    moreover have "n = \<lfloor>y\<rfloor> + 1"
    proof -
      have "of_int n < (of_int \<lfloor>y\<rfloor> :: rat) + 2" "(of_int \<lfloor>y\<rfloor> :: rat) < of_int n"
        using a f calculation by linarith+
      then have "(of_int n :: rat) < of_int (\<lfloor>y\<rfloor> + 2)" "(of_int \<lfloor>y\<rfloor> :: rat) < of_int n"
        by simp_all
      then have "n < \<lfloor>y\<rfloor> + 2" "\<lfloor>y\<rfloor> < n" by (simp_all only: of_int_less_iff)
      then show ?thesis by simp
    qed
    ultimately show ?thesis using False by (simp add: round_half_even_def Let_def)
  qed
qed

lemma round_to_double_eqI:
  assumes "x \<noteq> 0" "pow2 E \<le> \<bar>x\<bar>" "\<bar>x\<bar> < pow2 (E + 1)" "- 1022 \<le> E"
    and "\<bar>of_int n - x / pow2 (E - 52)\<bar> < 1 / 2"
    and "\<bar>of_int n * pow2 (E - 52)\<bar> < pow2 1024"
  shows "round_to_double x = Finite (of_int n * pow2 (E - 52))"
proof -
  have e: "expo x = E" using assms(1-3) by (rule expo_eqI)
  have m: "max E (- 1022) = E" using assms(4) by simp
  have n: "round_half_even (x / pow2 (E - 52)) = n" using assms(5) by (rule round_half_even_eqI)
  show ?thesis
    unfolding round_to_double_def Let_def e m n using assms(1,6) by simp
qed

lemma miles_per_meter_value:
  "miles_per_meter = Finite (5731135905912489 / 9223372036854775808)"
proof -
  have "round_to_double (621371 / 1000000000)
      = Finite (of_int 5731135905912489 * pow2 (- 11 - 52))"
    by (rule round_to_double_eqI) (simp_all add: pow2_def)
  then show ?thesis by (simp add: miles_per_meter_def pow2_def)
qed

subsection \<open>Meters to miles\<close>

lemma int_abs_bound:
  fixes k :: int
  assumes "\<bar>(of_int k :: rat)\<bar> < of_int b + 1"
  shows "\<bar>(of_int k :: rat)\<bar> \<le> of_int b"
proof -
  have "(of_int \<bar>k\<bar> :: rat) < of_int (b + 1)" using assms by simp
  then have "\<bar>k\<bar> < b + 1" by (simp only: of_int_less_iff)
  then have "\<bar>k\<bar> \<le> b" by simp
  then have "(of_int \<bar>k\<bar> :: rat) \<le> of_int b" by (simp only: of_int_le_iff)
  then show ?thesis by simp
qed

lemma miles_numeric:
  assumes m0: "0 \<le> m" and m31: "m < 2 ^ 31"
  shows "\<exists>p q. float_mul (Finite (of_int m)) miles_per_meter = Finite p \<and>
               round_to_double (of_int (round_half_even (p * 10)) / 10) = Finite q \<and>
               \<bar>(of_int (round_half_even (p * 10)) :: rat) / 10 - of_int m * (621371 / 1000000000)\<bar>
                 \<le> 1 / 20"
proof -
  let ?c = "5731135905912489 / 9223372036854775808 :: rat"
  let ?cx = "621371 / 1000000000 :: rat"
  let ?M = "of_int m :: rat"
  let ?x = "?M * ?c"
  have cerr: "\<bar>?c - ?cx\<bar> \<le> 1 / 2 ^ 64" by simp
  have cub: "?c \<le> 1 / 2 ^ 10" by simp
  have M0: "0 \<le> ?M" using m0 by simp
  have M31: "?M \<le> 2 ^ 31"
  proof -
    have "(of_int m :: rat) < of_int (2 ^ 31)" using m31 by (simp only: of_int_less_iff)
    then show ?thesis by simp
  qed
  have mul: "float_mul (Finite ?M) miles_per_meter = round_to_double ?x"
    by (simp add: miles_per_meter_value)
  \<comment> \<open>the float product and its distance from the exact product\<close>
  have "\<exists>p. round_to_double ?x = Finite p \<and> \<bar>p - ?M * ?cx\<bar> \<le> 1 / 2 ^ 32"
  proof (cases "m = 0")
    case True
    then show ?thesis by (simp add: round_to_double_def)
  next
    case False
    then have x0: "?x \<noteq> 0" by simp
    have "?x \<le> ?M * (1 / 2 ^ 10)" using cub M0 by (rule mult_left_mono)
    then have xub: "?x \<le> 2 ^ 21" using M31 by simp
    have xpos: "0 \<le> ?x" using M0 by simp
    have "\<bar>?x\<bar> < pow2 22" using xub xpos by (simp add: pow2_def)
    then have e: "expo ?x < 22" using x0 by (rule expo_less [rotated])
    have xb: "\<bar>?x\<bar> < pow2 1023"
      using \<open>\<bar>?x\<bar> < pow2 22\<close> pow2_strict_mono [of 22 1023] by simp
    obtain p where p: "round_to_double ?x = Finite p"
      "\<bar>p - ?x\<bar> \<le> pow2 (max (expo ?x) (- 1022) - 53)"
      using round_to_double_error [OF x0 xb] by blast
    have e21: "expo ?x \<le> 20"
    proof (rule ccontr)
      assume "\<not> expo ?x \<le> 20"
      then have "21 \<le> expo ?x" by simp
      then have "pow2 21 \<le> pow2 (expo ?x)" by (rule pow2_mono)
      also have "\<dots> \<le> \<bar>?x\<bar>" using expo_bounds [OF x0] by simp
      finally have "2 ^ 21 \<le> ?x" using xpos by (simp add: pow2_def)
      then have "?x = 2 ^ 21" using xub by simp
      then have "?M * ?c = 2 ^ 21" by simp
      then have "?M * 5731135905912489 = 2 ^ 21 * 9223372036854775808" by (simp add: field_simps)
      then have "?M * ?c = 2 ^ 31 * ?c \<or> ?M < 2 ^ 31" using M31 by linarith
      moreover have "?M < 2 ^ 31"
      proof -
        have "(of_int m :: rat) < of_int (2 ^ 31)" using m31 by (simp only: of_int_less_iff)
        then show ?thesis by simp
      qed
      ultimately show False
        using \<open>?M * 5731135905912489 = 2 ^ 21 * 9223372036854775808\<close> by simp
    qed
    have "max (expo ?x) (- 1022) - 53 \<le> - 33" using e21 by simp
    then have "pow2 (max (expo ?x) (- 1022) - 53) \<le> pow2 (- 33)" by (rule pow2_mono)
    then have perr: "\<bar>p - ?x\<bar> \<le> 1 / 2 ^ 33" using p(2) by (simp add: pow2_def)
    have "\<bar>?x - ?M * ?cx\<bar> = ?M * \<bar>?c - ?cx\<bar>"
    proof -
      have "?x - ?M * ?cx = ?M * (?c - ?cx)" by (simp only: right_diff_distrib)
      then show ?thesis using M0 by (simp only: abs_mult abs_of_nonneg)
    qed
    also have "\<dots> \<le> ?M * (1 / 2 ^ 64)" using cerr M0 by (rule mult_left_mono)
    also have "\<dots> \<le> 1 / 2 ^ 33" using M31 by simp
    finally have "\<bar>?x - ?M * ?cx\<bar> \<le> 1 / 2 ^ 33" .
    with perr have "\<bar>p - ?M * ?cx\<bar> \<le> 1 / 2 ^ 33 + 1 / 2 ^ 33" by linarith
    then have "\<bar>p - ?M * ?cx\<bar> \<le> 1 / 2 ^ 32" by simp
    with p(1) show ?thesis by blast
  qed
  then obtain p where p: "round_to_double ?x = Finite p" "\<bar>p - ?M * ?cx\<bar> \<le> 1 / 2 ^ 32"
    by blast
  let ?t = "round_half_even (p * 10)"
  have terr: "\<bar>of_int ?t - p * 10\<bar> \<le> 1 / 2" by (rule round_half_even_error)
  \<comment> \<open>the rounded decimal is a nearest tenth of the exact product\<close>
  let ?k = "?t * 100000000 - m * 621371"
  have k: "(of_int ?k :: rat) = (of_int ?t - ?M * ?cx * 10) * 100000000"
    by simp
  have "\<bar>of_int ?t - ?M * ?cx * 10\<bar> \<le> 1 / 2 + 10 / 2 ^ 32"
    using terr p(2) by linarith
  then have "\<bar>(of_int ?k :: rat)\<bar> \<le> (1 / 2 + 10 / 2 ^ 32) * 100000000"
    unfolding k by (simp only: abs_mult) simp
  then have "\<bar>(of_int ?k :: rat)\<bar> < of_int 50000000 + 1" by simp
  then have "\<bar>(of_int ?k :: rat)\<bar> \<le> of_int 50000000" by (rule int_abs_bound)
  then have "\<bar>(of_int ?k :: rat)\<bar> \<le> 50000000" by (simp only: of_int_numeral)
  with k have near: "\<bar>of_int ?t / 10 - ?M * ?cx\<bar> \<le> 1 / 20"
    by linarith
  \<comment> \<open>the decimal converts to a finite float\<close>
  have "\<exists>q. round_to_double (of_int ?t / 10) = Finite q"
  proof (cases "?t = 0")
    case True
    then show ?thesis by (simp add: round_to_double_def)
  next
    case False
    then have y0: "(of_int ?t :: rat) / 10 \<noteq> 0" by simp
    have "?M \<le> 2147483648" using M31 by simp
    then have "?M * ?cx \<le> 2147483648 * ?cx" by (rule mult_right_mono) simp
    also have "\<dots> \<le> 1334385" by simp
    finally have "?M * ?cx \<le> 1334385" .
    moreover have "0 \<le> ?M * ?cx" using M0 by simp
    ultimately have "\<bar>(of_int ?t :: rat) / 10\<bar> \<le> 1334385 + 1 / 20"
      using near by linarith
    then have "\<bar>(of_int ?t :: rat) / 10\<bar> < pow2 22" by (simp add: pow2_def)
    then have "\<bar>(of_int ?t :: rat) / 10\<bar> < pow2 1023"
      using pow2_strict_mono [of 22 1023] by simp
    then show ?thesis using round_to_double_error [OF y0] by blast
  qed
  then obtain q where q: "round_to_double (of_int ?t / 10) = Finite q" by blast
  from mul p(1) q near show ?thesis by simp
qed

lemma float_of_int_exact: "0 \<le> m \<Longrightarrow> m < 2 ^ 53 \<Longrightarrow> float_of_int m = Inr (Finite (of_int m))"
  by (simp add: float_of_int_def round_to_double_int)

text \<open>
  Claim C6. For a reply with status 200 whose first route carries the integer distance
  \<open>m\<close>, the client returns \<^verbatim>\<open>round(m * 0.000621371, 1)\<close> as Python's float arithmetic
  computes it. For \<open>0 \<le> m < 2 ^ 31\<close> (the provider's field is a 32-bit integer) this
  float is the one nearest to a decimal \<open>t / 10\<close> that lies within \<open>1 / 20\<close> of the exact
  product of \<open>m\<close> and \<open>0.000621371\<close>: the exact product rounded to one decimal place.
  At \<open>m = 160934\<close> the result is \<open>100.0\<close>.
\<close>

theorem miles_from_meters:
  assumes key: "truthy api_key"
    and post: "post origin dest = Inr resp"
    and ok: "status_code resp = 200"
    and body: "body resp = Some (JObj kvs)"
    and routes: "map_of kvs ''routes'' = Some (JArr (JObj rkvs # others))"
    and meters: "map_of rkvs ''distanceMeters'' = Some (JInt m)"
  shows "google_route_distance_miles api_key post origin dest =
           (case float_of_int m of
              Inl e \<Rightarrow> Inl e
            | Inr f \<Rightarrow>
                (case py_round (float_mul f miles_per_meter) 1 of
                   Inl e \<Rightarrow> Inl e
                 | Inr x \<Rightarrow> Inr (Some x))) \<and>
         (0 \<le> m \<and> m < 2 ^ 31 \<longrightarrow>
            (\<exists>t q. google_route_distance_miles api_key post origin dest = Inr (Some (Finite q)) \<and>
                   round_to_double (of_int t / 10) = Finite q \<and>
                   \<bar>(of_int t :: rat) / 10 - of_int m * (621371 / 1000000000)\<bar> \<le> 1 / 20))"
proof -
  have g: "google_route_distance_miles api_key post origin dest =
           (case float_of_int m of
              Inl e \<Rightarrow> Inl e
            | Inr f \<Rightarrow>
                (case py_round (float_mul f miles_per_meter) 1 of
                   Inl e \<Rightarrow> Inl e
                 | Inr x \<Rightarrow> Inr (Some x)))"
    using assms by (simp add: google_route_distance_miles_def split: sum.splits)
  have "\<exists>t q. google_route_distance_miles api_key post origin dest = Inr (Some (Finite q)) \<and>
                   round_to_double (of_int t / 10) = Finite q \<and>
                   \<bar>(of_int t :: rat) / 10 - of_int m * (621371 / 1000000000)\<bar> \<le> 1 / 20"
    if r: "0 \<le> m" "m < 2 ^ 31"
  proof -
    have "m < 2 ^ 53" using r(2) by simp
    then have f: "float_of_int m = Inr (Finite (of_int m))"
      using r(1) by (simp add: float_of_int_exact)
    obtain p q where pq: "float_mul (Finite (of_int m)) miles_per_meter = Finite p"
      "round_to_double (of_int (round_half_even (p * 10)) / 10) = Finite q"
      "\<bar>(of_int (round_half_even (p * 10)) :: rat) / 10 - of_int m * (621371 / 1000000000)\<bar> \<le> 1 / 20"
      using miles_numeric [OF r] by blast
    have "py_round (Finite p) 1 = Inr (Finite q)"
      using pq(2) by (simp add: py_round_def)
    then have "google_route_distance_miles api_key post origin dest = Inr (Some (Finite q))"
      using g f pq(1) by simp
    with pq(2,3) show ?thesis by blast
  qed
  with g show ?thesis by blast
qed

theorem miles_from_meters_witness:
  "google_route_distance_miles (Some ''key'')
     (\<lambda>a b. Inr \<lparr>status_code = 200,
                  body = Some (JObj [(''routes'', JArr [JObj [(''distanceMeters'', JInt 160934)]])])\<rparr>)
     ''TIJUANA, BC, Mexico'' ''San Diego, CA, 92101, USA''
   = Inr (Some (Finite 100))"
proof -
  let ?resp = "\<lparr>status_code = 200,
                  body = Some (JObj [(''routes'', JArr [JObj [(''distanceMeters'', JInt 160934)]])])\<rparr>"
  let ?g = "google_route_distance_miles (Some ''key'') (\<lambda>a b. Inr ?resp)
     ''TIJUANA, BC, Mexico'' ''San Diego, CA, 92101, USA''"
  have "?g =
           (case float_of_int 160934 of
              Inl e \<Rightarrow> Inl e
            | Inr f \<Rightarrow>
                (case py_round (float_mul f miles_per_meter) 1 of
                   Inl e \<Rightarrow> Inl e
                 | Inr x \<Rightarrow> Inr (Some x))) \<and>
         (0 \<le> (160934::int) \<and> (160934::int) < 2 ^ 31 \<longrightarrow>
            (\<exists>t q. ?g = Inr (Some (Finite q)) \<and>
                   round_to_double (of_int t / 10) = Finite q \<and>
                   \<bar>(of_int t :: rat) / 10 - of_int 160934 * (621371 / 1000000000)\<bar> \<le> 1 / 20))"
    by (rule miles_from_meters [where resp = ?resp
          and kvs = "[(''routes'', JArr [JObj [(''distanceMeters'', JInt 160934)]])]"
          and rkvs = "[(''distanceMeters'', JInt 160934)]" and others = "[]"])
      simp_all
  then have "0 \<le> (160934::int) \<and> (160934::int) < 2 ^ 31 \<longrightarrow>
            (\<exists>t q. ?g = Inr (Some (Finite q)) \<and>
                   round_to_double (of_int t / 10) = Finite q \<and>
                   \<bar>(of_int t :: rat) / 10 - of_int 160934 * (621371 / 1000000000)\<bar> \<le> 1 / 20)"
    by (rule conjunct2)
  moreover have "0 \<le> (160934::int) \<and> (160934::int) < 2 ^ 31" by simp
  ultimately have "\<exists>t q. ?g = Inr (Some (Finite q)) \<and>
                   round_to_double (of_int t / 10) = Finite q \<and>
                   \<bar>(of_int t :: rat) / 10 - of_int 160934 * (621371 / 1000000000)\<bar> \<le> 1 / 20"
    by (rule mp)
  then obtain t q where tq: "?g = Inr (Some (Finite q))" "round_to_double (of_int t / 10) = Finite q"
      "\<bar>(of_int t :: rat) / 10 - of_int 160934 * (621371 / 1000000000)\<bar> \<le> 1 / 20"
    by blast
  have e: "(of_int 160934 :: rat) * (621371 / 1000000000) = 49999860257 / 500000000"
    by simp
  have "(999 :: rat) < of_int t" "(of_int t :: rat) < 1001"
    using tq(3) unfolding e by linarith+
  then have "999 < t" "t < 1001" by simp_all
  then have t: "t = 1000" by simp
  have "round_to_double (of_int 100) = Finite (of_int 100)"
    by (rule round_to_double_int) simp_all
  then have "q = 100" using tq(2) t by simp
  with tq(1) show ?thesis by simp
qed

section \<open>The pipeline\<close>

subsection \<open>The failure cases of the lookup\<close>

lemma lookup_without_key:
  "\<not> truthy api_key \<Longrightarrow> google_route_distance_miles api_key post a b = Inr None"
  by (simp add: google_route_distance_miles_def)

lemma lookup_bad_status:
  "post a b = Inr resp \<Longrightarrow> status_code resp \<noteq> 200 \<Longrightarrow>
   google_route_distance_miles api_key post a b = Inr None"
  by (simp add: google_route_distance_miles_def)

lemma lookup_no_route:
  "post a b = Inr resp \<Longrightarrow> body resp = Some (JObj kvs) \<Longrightarrow>
   map_of kvs ''routes'' = None \<or> map_of kvs ''routes'' = Some (JArr []) \<Longrightarrow>
   google_route_distance_miles api_key post a b = Inr None"
  by (auto simp: google_route_distance_miles_def)

lemma lookup_no_distance:
  "post a b = Inr resp \<Longrightarrow> body resp = Some (JObj kvs) \<Longrightarrow>
   map_of kvs ''routes'' = Some (JArr (JObj rkvs # others)) \<Longrightarrow>
   map_of rkvs ''distanceMeters'' = None \<Longrightarrow>
   google_route_distance_miles api_key post a b = Inr None"
  by (simp add: google_route_distance_miles_def)

lemma lookup_transport_error:
  "truthy api_key \<Longrightarrow> post a b = Inl e \<Longrightarrow>
   google_route_distance_miles api_key post a b = Inl e"
  by (simp add: google_route_distance_miles_def)

subsection \<open>Tasks, gathering and the slot array\<close>

lemma gather_all_returned:
  assumes "\<forall>x \<in> set outcomes. \<not> isl x"
  shows "gather finished outcomes = Inr (map projr outcomes)"
proof -
  have "filter (\<lambda>i. isl (outcomes ! i)) [0..<length outcomes] = []"
    using assms by (auto simp: filter_empty_conv)
  then show ?thesis by (simp add: gather_def)
qed

lemma gather_some_raised:
  assumes "\<exists>x \<in> set outcomes. isl x"
  shows "\<exists>e. gather finished outcomes = Inl e"
proof -
  obtain i where "i < length outcomes" "isl (outcomes ! i)"
    using assms by (auto simp: in_set_conv_nth)
  then have "filter (\<lambda>i. isl (outcomes ! i)) [0..<length outcomes] \<noteq> []"
    by (auto simp: filter_empty_conv)
  then show ?thesis by (simp add: gather_def)
qed

text \<open>The slot array after the loop, for index tags that are distinct and in range.\<close>

lemma fill_nth:
  assumes "distinct (map fst ps)" and "\<forall>p \<in> set ps. fst p < length slots"
  shows "\<exists>out. fill ps slots = Inr out \<and> length out = length slots \<and>
           (\<forall>i < length slots. out ! i = (case map_of ps i of None \<Rightarrow> slots ! i | Some v \<Rightarrow> v))"
  using assms
proof (induction ps arbitrary: slots)
  case Nil
  then show ?case by simp
next
  case (Cons p ps)
  obtain idx miles where p: "p = (idx, miles)" by (cases p)
  have idx: "idx < length slots" using Cons.prems p by simp
  have d: "distinct (map fst ps)" "idx \<notin> fst ` set ps" using Cons.prems p by auto
  have r: "\<forall>p \<in> set ps. fst p < length (slots[idx := miles])" using Cons.prems by simp
  obtain out where out: "fill ps (slots[idx := miles]) = Inr out"
    "length out = length (slots[idx := miles])"
    "\<forall>i < length (slots[idx := miles]).
        out ! i = (case map_of ps i of None \<Rightarrow> (slots[idx := miles]) ! i | Some v \<Rightarrow> v)"
    using Cons.IH [OF d(1) r] by blast
  have m: "map_of ps idx = None" using d(2) by (simp add: map_of_eq_None_iff)
  have "fill (p # ps) slots = Inr out" using p idx out(1) by simp
  moreover have "length out = length slots" using out(2) by simp
  moreover have "\<forall>i < length slots.
      out ! i = (case map_of (p # ps) i of None \<Rightarrow> slots ! i | Some v \<Rightarrow> v)"
  proof (intro allI impI)
    fix i assume i: "i < length slots"
    then have "out ! i = (case map_of ps i of None \<Rightarrow> (slots[idx := miles]) ! i | Some v \<Rightarrow> v)"
      using out(3) by simp
    then show "out ! i = (case map_of (p # ps) i of None \<Rightarrow> slots ! i | Some v \<Rightarrow> v)"
      using p m i by (cases "i = idx") (auto split: option.splits)
  qed
  ultimately show ?case by blast
qed

text \<open>
  Whatever the order in which the tagged results are written, the slot array ends as the
  list of the values in the order of the tags.
\<close>

lemma fill_any_order:
  assumes "mset ps = mset (enumerate 0 vs)"
  shows "fill ps (replicate (length vs) None) = Inr vs"
proof -
  let ?n = "length vs"
  have s: "set ps = set (enumerate 0 vs)" using assms by (rule mset_eq_setD)
  have "mset (map fst ps) = mset (map fst (enumerate 0 vs))"
    using assms by (metis mset_map)
  then have "distinct (map fst ps) = distinct (map fst (enumerate 0 vs))"
    by (rule mset_eq_imp_distinct_iff)
  then have d: "distinct (map fst ps)" by simp
  have r: "\<forall>p \<in> set ps. fst p < length (replicate ?n (None :: 'a option))"
    using s by (auto simp: in_set_enumerate_eq)
  obtain out where out: "fill ps (replicate ?n None) = Inr out" "length out = ?n"
    "\<forall>i < ?n. out ! i = (case map_of ps i of None \<Rightarrow> replicate ?n None ! i | Some v \<Rightarrow> v)"
    using fill_nth [OF d r] by auto
  have "out ! i = vs ! i" if i: "i < ?n" for i
  proof -
    have "(i, vs ! i) \<in> set ps" using s i by (simp add: in_set_enumerate_eq)
    then have "map_of ps i = Some (vs ! i)" using d by simp
    then show ?thesis using out(3) i by simp
  qed
  then have "out = vs" using out(2) by (simp add: list_eq_iff_nth_eq)
  with out(1) show ?thesis by simp
qed

subsection \<open>The column computed by the pipeline\<close>

lemma process_one_tag: "process_one api_key post idx r = Inr (j, v) \<Longrightarrow> j = idx"
  by (auto simp: process_one_def split: prod.splits sum.splits if_splits)

lemma tasks_nth:
  "i < length rows \<Longrightarrow>
   map (\<lambda>(idx, r). process_one api_key post idx r) (enumerate 0 rows) ! i
     = process_one api_key post i (rows ! i)"
  by (simp add: nth_enumerate_eq)

text \<open>
  The runs that return: the output has the length of the input, and its entry \<open>i\<close> is the
  value that the task of record \<open>i\<close> returns, whatever the instants of completion.
\<close>

lemma calculate_mileage_Inr_iff:
  "calculate_mileage api_key post finished rows = Inr out \<longleftrightarrow>
     length out = length rows \<and>
     (\<forall>i < length rows. process_one api_key post i (rows ! i) = Inr (i, out ! i))"
proof -
  define tasks where "tasks = map (\<lambda>(idx, r). process_one api_key post idx r) (enumerate 0 rows)"
  have len: "length tasks = length rows" by (simp add: tasks_def)
  have nth: "tasks ! i = process_one api_key post i (rows ! i)" if "i < length rows" for i
    unfolding tasks_def using that by (rule tasks_nth)
  have calc: "calculate_mileage api_key post finished rows =
      (case gather finished tasks of
         Inl e \<Rightarrow> Inl e
       | Inr results \<Rightarrow> fill results (replicate (length rows) None))"
    by (simp add: calculate_mileage_def tasks_def)
  show ?thesis
  proof (cases "\<forall>x \<in> set tasks. \<not> isl x")
    case True
    define vs where "vs = map (\<lambda>x. snd (projr x)) tasks"
    have lvs: "length vs = length rows" by (simp add: vs_def len)
    have tag: "tasks ! i = Inr (i, vs ! i)" if i: "i < length rows" for i
    proof -
      have "tasks ! i \<in> set tasks" using i len by simp
      then have "\<not> isl (tasks ! i)" using True by blast
      then obtain j v where jv: "tasks ! i = Inr (j, v)" by (cases "tasks ! i") auto
      then have "process_one api_key post i (rows ! i) = Inr (j, v)"
        using nth [OF i] by simp
      then have "j = i" by (rule process_one_tag)
      moreover have "vs ! i = v" using jv i len by (simp add: vs_def)
      ultimately show ?thesis using jv by simp
    qed
    have "map projr tasks = enumerate 0 vs"
    proof (rule nth_equalityI)
      show "length (map projr tasks) = length (enumerate 0 vs)" by (simp add: len lvs)
    next
      fix i assume "i < length (map projr tasks)"
      then have i: "i < length rows" by (simp add: len)
      then have "map projr tasks ! i = projr (tasks ! i)" by (simp add: len)
      also have "\<dots> = (i, vs ! i)" using tag [OF i] by simp
      also have "\<dots> = enumerate 0 vs ! i" using i lvs by (simp add: nth_enumerate_eq)
      finally show "map projr tasks ! i = enumerate 0 vs ! i" .
    qed
    then have g: "gather finished tasks = Inr (enumerate 0 vs)"
      using gather_all_returned [OF True, of finished] by simp
    have "fill (enumerate 0 vs) (replicate (length vs) None) = Inr vs"
      by (rule fill_any_order) simp
    then have c: "calculate_mileage api_key post finished rows = Inr vs"
      using g lvs by (simp add: calc)
    show ?thesis
    proof
      assume "calculate_mileage api_key post finished rows = Inr out"
      then have o: "out = vs" using c by simp
      show "length out = length rows \<and>
          (\<forall>i < length rows. process_one api_key post i (rows ! i) = Inr (i, out ! i))"
      proof (intro conjI allI impI)
        show "length out = length rows" using o lvs by simp
      next
        fix i assume i: "i < length rows"
        have "process_one api_key post i (rows ! i) = tasks ! i" using nth [OF i] by simp
        also have "\<dots> = Inr (i, vs ! i)" using tag [OF i] .
        finally show "process_one api_key post i (rows ! i) = Inr (i, out ! i)"
          using o by simp
      qed
    next
      assume a: "length out = length rows \<and>
          (\<forall>i < length rows. process_one api_key post i (rows ! i) = Inr (i, out ! i))"
      have "out = vs"
      proof (rule nth_equalityI)
        show "length out = length vs" using a lvs by simp
      next
        fix i assume "i < length out"
        then have i: "i < length rows" using a by simp
        then have "tasks ! i = Inr (i, out ! i)" using a nth [OF i] by simp
        then show "out ! i = vs ! i" using tag [OF i] by simp
      qed
      then show "calculate_mileage api_key post finished rows = Inr out" using c by simp
    qed
  next
    case False
    then obtain e where "gather finished tasks = Inl e"
      using gather_some_raised [of tasks finished] by blast
    then have c: "calculate_mileage api_key post finished rows = Inl e"
      by (simp add: calc)
    from False obtain i where i: "i < length rows" "isl (tasks ! i)"
      using len by (metis in_set_conv_nth)
    then have "isl (process_one api_key post i (rows ! i))" using nth [OF i(1)] by simp
    then have "process_one api_key post i (rows ! i) \<noteq> Inr (i, out ! i)" by auto
    then have "\<not> (\<forall>i < length rows. process_one api_key post i (rows ! i) = Inr (i, out ! i))"
      using i(1) by blast
    then show ?thesis using c by simp
  qed
qed

text \<open>
  Claim C8. The provider being a function of the address pair, two runs over the same
  records differ only in the instants at which the lookups complete. Whatever these
  instants, one run returns an output sequence exactly when the other does, and then both
  return the same sequence.
\<close>

theorem pipeline_deterministic:
  "(calculate_mileage api_key post finished rows = Inr out)
     = (calculate_mileage api_key post finished' rows = Inr out) \<and>
   isl (calculate_mileage api_key post finished rows)
     = isl (calculate_mileage api_key post finished' rows)"
proof -
  have a: "(calculate_mileage api_key post f rows = Inr out)
      = (calculate_mileage api_key post f' rows = Inr out)" for f f' out
    by (simp only: calculate_mileage_Inr_iff)
  have "isl x = (\<forall>out. x \<noteq> Inr out)" for x :: "error + pyfloat option list"
    by (cases x) simp_all
  then have "isl (calculate_mileage api_key post finished rows)
      = isl (calculate_mileage api_key post finished' rows)"
    using a [of finished _ finished'] by simp
  with a show ?thesis by blast
qed

lemma process_one_returned:
  "\<not> isl (process_one api_key post idx r) \<Longrightarrow>
   process_one api_key post idx r = Inr (idx, snd (projr (process_one api_key post 0 r)))"
  by (auto simp: process_one_def split: prod.splits sum.splits if_splits)

text \<open>The runs that do not return: those in which some task raises.\<close>

lemma pipeline_raises_iff:
  "isl (calculate_mileage api_key post finished rows) \<longleftrightarrow>
     (\<exists>i < length rows. isl (process_one api_key post i (rows ! i)))"
proof -
  let ?tasks = "map (\<lambda>(idx, r). process_one api_key post idx r) (enumerate 0 rows)"
  have "(\<exists>x \<in> set ?tasks. isl x) \<longleftrightarrow> (\<exists>i < length rows. isl (?tasks ! i))"
    by (metis (no_types, lifting) in_set_conv_nth length_enumerate length_map)
  then have t: "(\<exists>x \<in> set ?tasks. isl x) \<longleftrightarrow>
      (\<exists>i < length rows. isl (process_one api_key post i (rows ! i)))"
    by (simp only: tasks_nth cong: conj_cong)
  show ?thesis
  proof (cases "\<exists>x \<in> set ?tasks. isl x")
    case True
    then obtain e where "gather finished ?tasks = Inl e"
      using gather_some_raised [of ?tasks finished] by blast
    then have "calculate_mileage api_key post finished rows = Inl e"
      by (simp add: calculate_mileage_def)
    then show ?thesis using True t by simp
  next
    case False
    then have "\<forall>i < length rows. \<not> isl (process_one api_key post i (rows ! i))"
      using t by blast
    then have "\<forall>i < length rows. process_one api_key post i (rows ! i)
        = Inr (i, map (\<lambda>r. snd (projr (process_one api_key post 0 r))) rows ! i)"
      by (simp add: process_one_returned)
    then have "calculate_mileage api_key post finished rows
        = Inr (map (\<lambda>r. snd (projr (process_one api_key post 0 r))) rows)"
      by (simp add: calculate_mileage_Inr_iff)
    then show ?thesis using False t by simp
  qed
qed

subsection \<open>A provider that cannot be reached\<close>

lemma process_one_unreachable:
  "process_one (Some ''key'') (\<lambda>a b. Inl TransportError) idx
     (mk_row (CStr ''TIJUANA,BC'') CNaN CNaN CNaN CNaN
        (CStr ''San Diego'') (CStr ''CA'') (CStr ''92101''))
   = Inl TransportError"
  by (simp add: process_one_def classify_and_build_addresses_eq row_eval
      google_route_distance_miles_def)

text \<open>
  Claim C2, where the code departs from it. With the credentials configured, an exception
  raised by the request (the provider cannot be reached, the request times out) is not
  turned into \<^verbatim>\<open>None\<close>: it leaves \<^verbatim>\<open>google_route_distance_miles\<close>, and the task that
  made the lookup.
\<close>

theorem lookup_exception_escapes:
  "truthy api_key \<and> post a b = Inl e \<longrightarrow>
     google_route_distance_miles api_key post a b = Inl e \<and>
     (classify_and_build_addresses r = (Some a, Some b) \<and> a \<noteq> [] \<and> b \<noteq> [] \<longrightarrow>
        process_one api_key post idx r = Inl e)"
  by (simp add: process_one_def lookup_transport_error)

theorem lookup_exception_escapes_witness:
  "google_route_distance_miles (Some ''key'') (\<lambda>a b. Inl TransportError)
     ''TIJUANA, BC, Mexico'' ''San Diego, CA, 92101, USA''
     = Inl TransportError \<and>
   process_one (Some ''key'') (\<lambda>a b. Inl TransportError) 0
     (mk_row (CStr ''TIJUANA,BC'') CNaN CNaN CNaN CNaN
        (CStr ''San Diego'') (CStr ''CA'') (CStr ''92101''))
     = Inl TransportError"
proof -
  let ?r = "mk_row (CStr ''TIJUANA,BC'') CNaN CNaN CNaN CNaN
        (CStr ''San Diego'') (CStr ''CA'') (CStr ''92101'')"
  have c: "classify_and_build_addresses ?r
      = (Some ''TIJUANA, BC, Mexico'', Some ''San Diego, CA, 92101, USA'')"
    by (simp add: classify_and_build_addresses_eq row_eval)
  show ?thesis
    using lookup_exception_escapes [where api_key = "Some ''key''"
        and post = "\<lambda>a b. Inl TransportError" and e = TransportError
        and a = "''TIJUANA, BC, Mexico''" and b = "''San Diego, CA, 92101, USA''"
        and r = ?r and idx = 0] c
    by simp
qed

text \<open>
  Claim C1, at the input where the code departs from it. Two records, the first with a
  Mexico leg, the second without; the provider cannot be reached. The pipeline returns no
  output sequence: the exception of the first task leaves \<^verbatim>\<open>asyncio.gather\<close>.
\<close>

theorem unreachable_provider_aborts_batch:
  "calculate_mileage (Some ''key'') (\<lambda>a b. Inl TransportError) (\<lambda>i. i)
     [mk_row (CStr ''TIJUANA,BC'') CNaN CNaN CNaN CNaN
        (CStr ''San Diego'') (CStr ''CA'') (CStr ''92101''),
      mk_row CNaN CNaN (CStr ''El Paso'') (CStr ''TX'') CNaN
        (CStr ''San Diego'') (CStr ''CA'') CNaN]
   = Inl TransportError"
proof -
  let ?r0 = "mk_row (CStr ''TIJUANA,BC'') CNaN CNaN CNaN CNaN
        (CStr ''San Diego'') (CStr ''CA'') (CStr ''92101'')"
  let ?r1 = "mk_row CNaN CNaN (CStr ''El Paso'') (CStr ''TX'') CNaN
        (CStr ''San Diego'') (CStr ''CA'') CNaN"
  let ?post = "(\<lambda>a b. Inl TransportError) :: provider"
  have p1: "process_one (Some ''key'') ?post (Suc 0) ?r1 = Inr (Suc 0, None)"
    by (simp add: process_one_def classify_and_build_addresses_eq row_eval)
  have e: "enumerate 0 [?r0, ?r1] = [(0, ?r0), (Suc 0, ?r1)]" by simp
  have g: "gather (\<lambda>i. i) [Inl TransportError, Inr (Suc 0, None :: pyfloat option)]
      = Inl TransportError"
    by (simp add: gather_def)
  show ?thesis
    unfolding calculate_mileage_def Let_def e
    by (simp add: process_one_unreachable p1 g)
qed

subsection \<open>A run against a stub provider\<close>

lemma product_160934:
  "float_mul (Finite 160934) miles_per_meter = Finite (7036854750687565 / 70368744177664)"
proof -
  have "round_to_double (160934 * (5731135905912489 / 9223372036854775808))
      = Finite (of_int 7036854750687565 * pow2 (6 - 52))"
    by (rule round_to_double_eqI) (simp_all add: pow2_def)
  then show ?thesis by (simp add: miles_per_meter_value pow2_def)
qed

lemma round_160934:
  "py_round (Finite (7036854750687565 / 70368744177664)) (Suc 0) = Inr (Finite 100)"
proof -
  have "round_half_even (7036854750687565 / 70368744177664 * 10) = 1000"
    by (rule round_half_even_eqI) simp
  moreover have "round_to_double (of_int 100) = Finite (of_int 100)"
    by (rule round_to_double_int) simp_all
  ultimately show ?thesis by (simp add: py_round_def)
qed

lemma stub_lookup:
  assumes "truthy api_key"
    and "post a b = Inr \<lparr>status_code = 200,
           body = Some (JObj [(''routes'', JArr [JObj [(''distanceMeters'', JInt 160934)]])])\<rparr>"
  shows "google_route_distance_miles api_key post a b = Inr (Some (Finite 100))"
proof -
  have "float_of_int 160934 = Inr (Finite (of_int 160934))"
    by (rule float_of_int_exact) simp_all
  then show ?thesis
    using assms by (simp add: google_route_distance_miles_def product_160934 round_160934)
qed

theorem pipeline_deterministic_witness:
  "calculate_mileage (Some ''key'')
     (\<lambda>a b. Inr \<lparr>status_code = 200,
                  body = Some (JObj [(''routes'', JArr [JObj [(''distanceMeters'', JInt 160934)]])])\<rparr>)
     (\<lambda>i. i)
     [mk_row (CStr ''TIJUANA,BC'') CNaN CNaN CNaN CNaN
        (CStr ''San Diego'') (CStr ''CA'') (CStr ''92101''),
      mk_row CNaN CNaN (CStr ''El Paso'') (CStr ''TX'') CNaN
        (CStr ''San Diego'') (CStr ''CA'') CNaN]
     = Inr [Some (Finite 100), None] \<and>
   calculate_mileage (Some ''key'')
     (\<lambda>a b. Inr \<lparr>status_code = 200,
                  body = Some (JObj [(''routes'', JArr [JObj [(''distanceMeters'', JInt 160934)]])])\<rparr>)
     (\<lambda>i. 1 - i)
     [mk_row (CStr ''TIJUANA,BC'') CNaN CNaN CNaN CNaN
        (CStr ''San Diego'') (CStr ''CA'') (CStr ''92101''),
      mk_row CNaN CNaN (CStr ''El Paso'') (CStr ''TX'') CNaN
        (CStr ''San Diego'') (CStr ''CA'') CNaN]
     = Inr [Some (Finite 100), None]"
proof -
  let ?post = "(\<lambda>a b. Inr \<lparr>status_code = 200,
                  body = Some (JObj [(''routes'', JArr [JObj [(''distanceMeters'', JInt 160934)]])])\<rparr>)
               :: provider"
  let ?r0 = "mk_row (CStr ''TIJUANA,BC'') CNaN CNaN CNaN CNaN
        (CStr ''San Diego'') (CStr ''CA'') (CStr ''92101'')"
  let ?r1 = "mk_row CNaN CNaN (CStr ''El Paso'') (CStr ''TX'') CNaN
        (CStr ''San Diego'') (CStr ''CA'') CNaN"
  have c0: "classify_and_build_addresses ?r0
      = (Some ''TIJUANA, BC, Mexico'', Some ''San Diego, CA, 92101, USA'')"
    by (simp add: classify_and_build_addresses_eq row_eval)
  have p0: "process_one (Some ''key'') ?post 0 ?r0 = Inr (0, Some (Finite 100))"
    by (simp add: process_one_def c0 stub_lookup)
  have p1: "process_one (Some ''key'') ?post (Suc 0) ?r1 = Inr (Suc 0, None)"
    by (simp add: process_one_def classify_and_build_addresses_eq row_eval)
  have "\<forall>i < length [?r0, ?r1]. process_one (Some ''key'') ?post i ([?r0, ?r1] ! i)
      = Inr (i, [Some (Finite 100), None] ! i)"
    using p0 p1 by (simp add: less_Suc_eq)
  then have a: "calculate_mileage (Some ''key'') ?post (\<lambda>i. i) [?r0, ?r1]
      = Inr [Some (Finite 100), None]"
    by (simp only: calculate_mileage_Inr_iff) simp
  then have "calculate_mileage (Some ''key'') ?post (\<lambda>i. 1 - i) [?r0, ?r1]
      = Inr [Some (Finite 100), None]"
    using pipeline_deterministic [of "Some ''key''" ?post "\<lambda>i. i" "[?r0, ?r1]"
        "[Some (Finite 100), None]" "\<lambda>i. 1 - i"]
    by blast
  with a show ?thesis by blast
qed

section \<open>The concurrency bound\<close>

lemma count_list_update:
  "i < length xs \<Longrightarrow>
   count_list (xs[i := y]) z + (if xs ! i = z then 1 else 0)
     = count_list xs z + (if y = z then 1 else 0)"
proof (induction xs arbitrary: i)
  case Nil
  then show ?case by simp
next
  case (Cons x xs)
  show ?case
  proof (cases i)
    case 0
    then show ?thesis by auto
  next
    case (Suc j)
    then have "j < length xs" using Cons.prems by simp
    from Cons.IH [OF this] show ?thesis using Suc by auto
  qed
qed

lemma in_phase_update:
  "i < length (phases s) \<Longrightarrow>
   in_phase p (s\<lparr>sem_value := v, phases := (phases s)[i := q]\<rparr>) + (if phases s ! i = p then 1 else 0)
     = in_phase p s + (if q = p then 1 else 0)"
  by (simp add: in_phase_def count_list_update)

lemma in_phase_update':
  "i < length (phases s) \<Longrightarrow>
   in_phase p (s\<lparr>phases := (phases s)[i := q]\<rparr>) + (if phases s ! i = p then 1 else 0)
     = in_phase p s + (if q = p then 1 else 0)"
  by (simp add: in_phase_def count_list_update)

text \<open>Every slot that has left the semaphore is held by exactly one task inside the block.\<close>

lemma step_invariant:
  assumes "step api_key rows s s'"
    and "sem_value s + in_phase Holding s + in_phase InFlight s = semaphore_size"
  shows "sem_value s' + in_phase Holding s' + in_phase InFlight s' = semaphore_size \<and>
         length (phases s') = length (phases s)"
  using assms
proof (cases rule: step.cases)
  case (acquire i)
  have "in_phase Holding s' = in_phase Holding s + 1" "in_phase InFlight s' = in_phase InFlight s"
    using in_phase_update [where i = i and s = s and p = Holding and v = "sem_value s - 1" and q = Holding]
      in_phase_update [where i = i and s = s and p = InFlight and v = "sem_value s - 1" and q = Holding] acquire by simp_all
  then show ?thesis using acquire assms(2) by simp
next
  case (return_early i)
  have "in_phase Holding s' + 1 = in_phase Holding s" "in_phase InFlight s' = in_phase InFlight s"
    using in_phase_update [where i = i and s = s and p = Holding and v = "sem_value s + 1" and q = Done]
      in_phase_update [where i = i and s = s and p = InFlight and v = "sem_value s + 1" and q = Done] return_early by simp_all
  then show ?thesis using return_early assms(2) by simp
next
  case (send i)
  have "in_phase Holding s' + 1 = in_phase Holding s" "in_phase InFlight s' = in_phase InFlight s + 1"
    using in_phase_update' [where i = i and s = s and p = Holding and q = InFlight]
      in_phase_update' [where i = i and s = s and p = InFlight and q = InFlight] send by simp_all
  then show ?thesis using send assms(2) by simp
next
  case (finish i)
  have "in_phase Holding s' = in_phase Holding s" "in_phase InFlight s' + 1 = in_phase InFlight s"
    using in_phase_update [where i = i and s = s and p = Holding and v = "sem_value s + 1" and q = Done]
      in_phase_update [where i = i and s = s and p = InFlight and v = "sem_value s + 1" and q = Done] finish by simp_all
  then show ?thesis using finish assms(2) by simp
qed

lemma reachable_invariant:
  "reachable api_key rows s \<Longrightarrow>
   sem_value s + in_phase Holding s + in_phase InFlight s = semaphore_size \<and>
   length (phases s) = length rows"
proof (induction rule: reachable.induct)
  case start
  show ?case by (simp add: initial_pool_def in_phase_def count_list_0_iff)
next
  case (next_step s s')
  then show ?case using step_invariant [of api_key rows s s'] by simp
qed

text \<open>How one step changes the phase of a task.\<close>

lemma step_leaves_waiting:
  assumes "step api_key rows s s'" "i < length (phases s)"
    "phases s ! i = Waiting" "phases s' ! i \<noteq> Waiting"
  shows "0 < sem_value s \<and> phases s' ! i = Holding \<and> sem_value s' = sem_value s - 1"
  using assms by (cases rule: step.cases) (auto simp: nth_list_update split: if_splits)

lemma step_enters_in_flight:
  assumes "step api_key rows s s'" "i < length (phases s)"
    "phases s' ! i = InFlight" "phases s ! i \<noteq> InFlight"
  shows "phases s ! i = Holding \<and> sem_value s' = sem_value s \<and> sends_request api_key (rows ! i)"
  using assms by (cases rule: step.cases) (auto simp: nth_list_update split: if_splits)

lemma step_leaves_block:
  assumes "step api_key rows s s'" "i < length (phases s)"
    "phases s' ! i = Done" "phases s ! i \<noteq> Done"
  shows "sem_value s' = sem_value s + 1 \<and> (phases s ! i = Holding \<or> phases s ! i = InFlight)"
  using assms by (cases rule: step.cases) (auto simp: nth_list_update split: if_splits)

text \<open>A run in which the first \<open>k\<close> tasks have sent their requests and none has finished.\<close>

lemma reachable_in_flight_prefix:
  assumes all: "\<forall>r \<in> set rows. sends_request api_key r"
    and k: "k \<le> semaphore_size" "k \<le> length rows"
  shows "reachable api_key rows
           \<lparr>sem_value = semaphore_size - k,
            phases = replicate k InFlight @ replicate (length rows - k) Waiting\<rparr>"
  using k
proof (induction k)
  case 0
  have "reachable api_key rows (initial_pool rows)" by (rule reachable.start)
  then show ?case by (simp add: initial_pool_def)
next
  case (Suc k)
  let ?n = "length rows"
  let ?s = "\<lparr>sem_value = semaphore_size - k,
            phases = replicate k InFlight @ replicate (?n - k) Waiting\<rparr>"
  have r: "reachable api_key rows ?s" using Suc by simp
  have kn: "k < ?n" using Suc.prems by simp
  have w: "replicate (?n - k) Waiting = Waiting # replicate (?n - Suc k) Waiting"
    using kn by (simp add: Suc_diff_Suc flip: replicate_Suc)
  have i: "k < length (phases ?s)" using kn by simp
  have p: "phases ?s ! k = Waiting" using kn by (simp add: nth_append)
  have v: "0 < sem_value ?s" using Suc.prems by simp
  let ?s1 = "?s\<lparr>sem_value := sem_value ?s - 1, phases := (phases ?s)[k := Holding]\<rparr>"
  have "step api_key rows ?s ?s1" using i p v by (rule step.acquire)
  with r have r1: "reachable api_key rows ?s1" by (rule reachable.next_step)
  have i1: "k < length (phases ?s1)" using kn by simp
  have p1: "phases ?s1 ! k = Holding" using kn by simp
  have q1: "sends_request api_key (rows ! k)" using all kn by simp
  let ?s2 = "?s1\<lparr>phases := (phases ?s1)[k := InFlight]\<rparr>"
  have "step api_key rows ?s1 ?s2" using i1 p1 q1 by (rule step.send)
  with r1 have r2: "reachable api_key rows ?s2" by (rule reachable.next_step)
  have "(replicate k InFlight @ Waiting # replicate (?n - Suc k) Waiting)[k := InFlight]
      = replicate k InFlight @ InFlight # replicate (?n - Suc k) Waiting"
    by (simp add: list_update_append)
  also have "\<dots> = replicate (Suc k) InFlight @ replicate (?n - Suc k) Waiting"
    by (simp add: replicate_append_same)
  finally have "?s2 = \<lparr>sem_value = semaphore_size - Suc k,
            phases = replicate (Suc k) InFlight @ replicate (?n - Suc k) Waiting\<rparr>"
    by (simp add: w)
  with r2 show ?case by simp
qed

lemma count_list_replicate: "count_list (replicate n x) y = (if x = y then n else 0)"
  by (induction n) auto

text \<open>
  Claim C7. In every state of a run, whatever the number of records: at most 20 requests
  are in flight; the value of the semaphore and the number of tasks inside the block add
  up to 20. A waiting task enters the block only by taking a free slot; a request is
  sent only by a task that holds a slot; and every step by which a task leaves the block,
  with or without a request, with a reply or an exception, gives its slot back.
\<close>

theorem in_flight_bounded:
  assumes "reachable api_key rows s"
  shows "in_phase InFlight s \<le> 20 \<and>
         sem_value s + in_phase Holding s + in_phase InFlight s = 20 \<and>
         length (phases s) = length rows \<and>
         (\<forall>s' i. step api_key rows s s' \<and> i < length rows \<longrightarrow>
            (phases s ! i = Waiting \<and> phases s' ! i \<noteq> Waiting \<longrightarrow>
               0 < sem_value s \<and> phases s' ! i = Holding \<and> sem_value s' = sem_value s - 1) \<and>
            (phases s' ! i = InFlight \<and> phases s ! i \<noteq> InFlight \<longrightarrow>
               phases s ! i = Holding \<and> sem_value s' = sem_value s) \<and>
            (phases s' ! i = Done \<and> phases s ! i \<noteq> Done \<longrightarrow>
               sem_value s' = sem_value s + 1))"
proof -
  have inv: "sem_value s + in_phase Holding s + in_phase InFlight s = 20"
    "length (phases s) = length rows"
    using reachable_invariant [OF assms] by (simp_all add: semaphore_size_def)
  then have b: "in_phase InFlight s \<le> 20" by simp
  have t: "(phases s ! i = Waiting \<and> phases s' ! i \<noteq> Waiting \<longrightarrow>
               0 < sem_value s \<and> phases s' ! i = Holding \<and> sem_value s' = sem_value s - 1) \<and>
            (phases s' ! i = InFlight \<and> phases s ! i \<noteq> InFlight \<longrightarrow>
               phases s ! i = Holding \<and> sem_value s' = sem_value s) \<and>
            (phases s' ! i = Done \<and> phases s ! i \<noteq> Done \<longrightarrow>
               sem_value s' = sem_value s + 1)"
    if "step api_key rows s s'" "i < length rows" for s' i
    using step_leaves_waiting [of api_key rows s s' i] step_enters_in_flight [of api_key rows s s' i]
      step_leaves_block [of api_key rows s s' i] that inv(2)
    by simp
  from b inv t show ?thesis by blast
qed

theorem in_flight_bounded_witness:
  "reachable (Some ''key'')
     (replicate 21 (mk_row (CStr ''TIJUANA,BC'') CNaN CNaN CNaN CNaN
        (CStr ''San Diego'') (CStr ''CA'') (CStr ''92101'')))
     \<lparr>sem_value = 0, phases = replicate 20 InFlight @ [Waiting]\<rparr> \<and>
   in_phase InFlight \<lparr>sem_value = 0, phases = replicate 20 InFlight @ [Waiting]\<rparr> = 20 \<and>
   \<not> (\<exists>s'. step (Some ''key'')
          (replicate 21 (mk_row (CStr ''TIJUANA,BC'') CNaN CNaN CNaN CNaN
             (CStr ''San Diego'') (CStr ''CA'') (CStr ''92101'')))
          \<lparr>sem_value = 0, phases = replicate 20 InFlight @ [Waiting]\<rparr> s' \<and>
        phases s' ! 20 \<noteq> Waiting)"
proof -
  let ?r = "mk_row (CStr ''TIJUANA,BC'') CNaN CNaN CNaN CNaN
        (CStr ''San Diego'') (CStr ''CA'') (CStr ''92101'')"
  let ?rows = "replicate 21 ?r"
  let ?s = "\<lparr>sem_value = 0, phases = replicate 20 InFlight @ [Waiting]\<rparr>"
  have "sends_request (Some ''key'') ?r"
    by (simp add: sends_request_def classify_and_build_addresses_eq row_eval)
  then have all: "\<forall>r \<in> set ?rows. sends_request (Some ''key'') r" by simp
  have "reachable (Some ''key'') ?rows
           \<lparr>sem_value = semaphore_size - 20,
            phases = replicate 20 InFlight @ replicate (length ?rows - 20) Waiting\<rparr>"
    using all by (rule reachable_in_flight_prefix) (simp_all add: semaphore_size_def)
  then have reach: "reachable (Some ''key'') ?rows ?s"
    by (simp add: semaphore_size_def)
  note T = in_flight_bounded [OF reach]
  have n: "in_phase InFlight ?s = 20"
    by (simp add: in_phase_def count_list_replicate)
  have w: "phases ?s ! 20 = Waiting" by (simp add: nth_append)
  have "\<not> (\<exists>s'. step (Some ''key'') ?rows ?s s' \<and> phases s' ! 20 \<noteq> Waiting)"
  proof
    assume "\<exists>s'. step (Some ''key'') ?rows ?s s' \<and> phases s' ! 20 \<noteq> Waiting"
    then obtain s' where s': "step (Some ''key'') ?rows ?s s'" "phases s' ! 20 \<noteq> Waiting"
      by blast
    have "(20::nat) < length ?rows" by simp
    with T s' w have "0 < sem_value ?s" by blast
    then show False by simp
  qed
  with reach n show ?thesis by blast
qed

end
